theory Spec2Isabelle
  imports Complex_Main "HOL-Library.Log_Nat"
begin

section \<open>Statutory reports service (server/services/statutory-reports.js)\<close>

text \<open>
  The service reads a relational store through \<open>query\<close> and builds three artifacts from a
  completed payroll run: the PF ECR text file, the ESI return (CSV) and the TDS summary
  object. The embedding has four layers, each following the source:
  \<^item> JavaScript numbers and strings (the operations the service uses);
  \<^item> the tables and the six SQL statements, as functions from the store to result rows;
  \<^item> the pure formatting code (header, records, message, summary);
  \<^item> the three exported functions, as state transformers over a \<open>world\<close> that holds the
    store, the statements issued so far and the console.
\<close>

subsection \<open>JavaScript numbers\<close>

text \<open>
  A JavaScript Number is an IEEE 754 binary64 value. The finite ones are modelled as the
  rationals they denote; \<open>fl\<close> rounds a rational to the nearest binary64 value (53
  significant bits, ties to even), which is what every arithmetic operator and every
  numeric literal does. The exponent range is not modelled: every number the service forms
  from 64-bit column values lies between \<open>2 powi (-1022)\<close> and \<open>2 powi 1024\<close> in
  magnitude or is zero, where binary64 has exactly these values.
\<close>

type_synonym number = rat

definition round_half_even :: "rat \<Rightarrow> int" where
  "round_half_even x =
     (let f = \<lfloor>x\<rfloor>; d = x - of_int f
      in if d < 1 / 2 then f
         else if 1 / 2 < d then f + 1
         else if even f then f else f + 1)"

definition binexp :: "rat \<Rightarrow> int" where
  \<comment> \<open>the binary exponent of a non-zero rational: \<open>2 powi e \<le> \<bar>x\<bar> < 2 powi (e + 1)\<close>\<close>
  "binexp x =
     (let (p, q) = quotient_of \<bar>x\<bar>; e = bitlen p - bitlen q
      in if 2 powi e \<le> \<bar>x\<bar> then e else e - 1)"

definition fl :: "rat \<Rightarrow> number" where
  "fl x =
     (if x = 0 then 0
      else let u = 2 powi (binexp x - 52)
           in of_int (round_half_even (x / u)) * u)"

definition js_add :: "number \<Rightarrow> number \<Rightarrow> number" where
  \<comment> \<open>\<open>a + b\<close> on numbers\<close>
  "js_add a b = fl (a + b)"

definition js_mul :: "number \<Rightarrow> number \<Rightarrow> number" where
  \<comment> \<open>\<open>a * b\<close>\<close>
  "js_mul a b = fl (a * b)"

definition js_div :: "number \<Rightarrow> number \<Rightarrow> number" where
  \<comment> \<open>\<open>a / b\<close>, for a non-zero divisor (the service only divides by 100)\<close>
  "js_div a b = fl (a / b)"

definition ToNumber :: "int \<Rightarrow> number" where
  \<comment> \<open>the number a column value becomes: node-postgres hands a \<open>bigint\<close> over as a decimal
      string, and \<open>Number(s)\<close>, like the implicit conversion of \<open>s / 100\<close>, takes the nearest
      binary64 value\<close>
  "ToNumber n = fl (of_int n)"

definition Math_round :: "number \<Rightarrow> int" where
  \<comment> \<open>\<open>Math.round\<close>: the nearest integer, a tie going towards \<open>+\<infinity>\<close>\<close>
  "Math_round x = \<lfloor>x + 1 / 2\<rfloor>"

definition lit_0_8333 :: number where
  \<comment> \<open>the literal \<open>0.8333\<close>\<close>
  "lit_0_8333 = fl (8333 / 10000)"

definition lit_0_0005 :: number where
  \<comment> \<open>the literal \<open>0.0005\<close>\<close>
  "lit_0_0005 = fl (5 / 10000)"

subsection \<open>JavaScript strings\<close>

text \<open>
  Strings are lists of 8-bit characters. \<open>trim\<close> and \<open>toUpperCase\<close> are those of the
  ASCII range (plus the no-break space for \<open>trim\<close>); no statement below depends on how
  they treat other characters.
\<close>

fun join :: "string \<Rightarrow> string list \<Rightarrow> string" where
  "join sep [] = []"
| "join sep [x] = x"
| "join sep (x # y # ys) = x @ sep @ join sep (y # ys)"

definition digit_char :: "nat \<Rightarrow> char" where
  "digit_char d = ''0123456789'' ! d"

fun digits :: "nat \<Rightarrow> string" where
  "digits n = (if n < 10 then [digit_char n] else digits (n div 10) @ [digit_char (n mod 10)])"

declare digits.simps [simp del]

definition js_String :: "int \<Rightarrow> string" where
  \<comment> \<open>\<open>String(n)\<close> and \<open>${n}\<close> for an integral number below \<open>1e21\<close> in magnitude\<close>
  "js_String n = (if n < 0 then CHR ''-'' # digits (nat (- n)) else digits (nat n))"

definition padStart :: "nat \<Rightarrow> char \<Rightarrow> string \<Rightarrow> string" where
  "padStart n c s = replicate (n - length s) c @ s"

definition is_space :: "char \<Rightarrow> bool" where
  "is_space c = (c \<in> set [CHR 0x09, CHR 0x0A, CHR 0x0B, CHR 0x0C, CHR 0x0D, CHR 0x20, CHR 0xA0])"

definition trim :: "string \<Rightarrow> string" where
  "trim s = rev (dropWhile is_space (rev (dropWhile is_space s)))"

definition upper_char :: "char \<Rightarrow> char" where
  "upper_char c =
     (case map_of (zip ''abcdefghijklmnopqrstuvwxyz'' ''ABCDEFGHIJKLMNOPQRSTUVWXYZ'') c of
        None \<Rightarrow> c | Some C \<Rightarrow> C)"

definition toUpperCase :: "string \<Rightarrow> string" where
  "toUpperCase s = map upper_char s"

definition or_empty :: "string option \<Rightarrow> string" where
  \<comment> \<open>\<open>x || ''\<close> for a nullable text column\<close>
  "or_empty x = (case x of None \<Rightarrow> [] | Some s \<Rightarrow> s)"

definition falsy :: "string option \<Rightarrow> bool" where
  \<comment> \<open>\<open>!x\<close> for a nullable text column: \<open>null\<close> and the empty string\<close>
  "falsy x = (case x of None \<Rightarrow> True | Some s \<Rightarrow> s = [])"

definition newline :: string where
  "newline = [CHR 0x0A]"

subsection \<open>Dates\<close>

record date =
  d_year :: int
  d_month :: int
  d_day :: int

definition date_le :: "date \<Rightarrow> date \<Rightarrow> bool" where
  "date_le a b =
     (d_year a < d_year b \<or>
      (d_year a = d_year b \<and>
        (d_month a < d_month b \<or> (d_month a = d_month b \<and> d_day a \<le> d_day b))))"

definition leap_year :: "int \<Rightarrow> bool" where
  "leap_year y = (y mod 4 = 0 \<and> (y mod 100 \<noteq> 0 \<or> y mod 400 = 0))"

definition month_length :: "int \<Rightarrow> int \<Rightarrow> int" where
  \<comment> \<open>the days of the month with index \<open>mn\<close> (0 = January) of the year \<open>ym\<close>\<close>
  "month_length ym mn =
     (if mn = 1 then (if leap_year ym then 29 else 28)
      else if mn \<in> {3, 5, 8, 10} then 30 else 31)"

definition js_date_day0_getDate :: "int \<Rightarrow> int \<Rightarrow> int" where
  \<comment> \<open>\<open>new Date(year, month, 0).getDate()\<close>: a year from 0 to 99 stands for 1900 + year;
      day 0 of the month with index \<open>month\<close> is the last day of the month before it, the
      month index being carried into the year\<close>
  "js_date_day0_getDate year month =
     (let yr = (if 0 \<le> year \<and> year \<le> 99 then 1900 + year else year);
          ym = yr + (month - 1) div 12;
          mn = (month - 1) mod 12
      in month_length ym mn)"

subsection \<open>The tables\<close>

text \<open>
  A table is the list of its rows. Primary and foreign keys are opaque identifiers, compared
  only for equality. A nullable text column is a \<open>string option\<close>. The \<open>metadata\<close>
  column is a JSON object whose entries \<open>pf_cents\<close> and \<open>tds_cents\<close>, when present, hold
  integers (the statements cast them to \<open>bigint\<close>).
\<close>

type_synonym ident = nat

record payroll_run =
  run_id :: ident
  run_tenant_id :: ident
  pay_period_start :: date
  pay_period_end :: date
  pay_date :: date
  run_status :: string

record organization =
  org_id :: ident
  org_name :: "string option"
  pf_code :: "string option"
  esi_code :: "string option"
  company_pan :: "string option"
  company_tan :: "string option"

record employee =
  e_id :: ident
  e_tenant_id :: ident
  employee_id :: string
  user_id :: ident
  uan_number :: "string option"
  esi_number :: "string option"
  pan_number :: "string option"

record profile =
  p_id :: ident
  first_name :: "string option"
  last_name :: "string option"

record payroll_run_employee =
  payroll_run_id :: ident
  pre_employee_id :: ident
  pre_status :: string
  gross_pay_cents :: int
  metadata :: "(string \<times> int) list"

text \<open>
  A row of the diagnostic statement of \<open>getPayrollRunForMonth\<close>: the runs of a tenant
  grouped by month, year and status. SQL leaves the order of rows with equal sort keys to the
  server; that statement is cut by \<open>LIMIT 10\<close> and its rows are printed in their order, so
  the server's choice belongs to the store: \<open>served_before a b\<close> says that the server returns
  the group \<open>a\<close> no later than \<open>b\<close> where the \<open>ORDER BY\<close> leaves the two tied. It may be any
  relation.
\<close>

record run_group =
  g_month :: int
  g_year :: int
  g_status :: string
  g_count :: nat

record database =
  payroll_runs :: "payroll_run list"
  organizations :: "organization list"
  employees :: "employee list"
  profiles :: "profile list"
  payroll_run_employees :: "payroll_run_employee list"
  served_before :: "run_group \<Rightarrow> run_group \<Rightarrow> bool"

subsection \<open>The SQL statements\<close>

text \<open>
  \<open>ORDER BY\<close> is an insertion sort. The statements over the employees and the statement
  that picks the completed run return rows with equal sort keys in table order; the diagnostic
  statement returns them in the server's order \<open>served_before\<close>. Text is compared by
  character code.
\<close>

fun insert_by :: "('a \<Rightarrow> 'a \<Rightarrow> bool) \<Rightarrow> 'a \<Rightarrow> 'a list \<Rightarrow> 'a list" where
  "insert_by le x [] = [x]"
| "insert_by le x (y # ys) = (if le x y then x # y # ys else y # insert_by le x ys)"

definition order_by :: "('a \<Rightarrow> 'a \<Rightarrow> bool) \<Rightarrow> 'a list \<Rightarrow> 'a list" where
  "order_by le xs = foldr (insert_by le) xs []"

fun text_le :: "string \<Rightarrow> string \<Rightarrow> bool" where
  "text_le [] ys = True"
| "text_le (x # xs) [] = False"
| "text_le (x # xs) (y # ys) =
     ((of_char x :: nat) < of_char y \<or> (x = y \<and> text_le xs ys))"

definition select_completed_run :: "database \<Rightarrow> ident \<Rightarrow> int \<Rightarrow> int \<Rightarrow> payroll_run list" where
  \<comment> \<open>\<open>SELECT id, pay_period_start, pay_period_end, pay_date, status FROM payroll_runs
      WHERE tenant_id = $1 AND EXTRACT(MONTH FROM pay_date) = $2
        AND EXTRACT(YEAR FROM pay_date) = $3 AND status = 'completed'
      ORDER BY pay_date DESC LIMIT 1\<close>\<close>
  "select_completed_run db tenantId month year =
     take 1 (order_by (\<lambda>a b. date_le (pay_date b) (pay_date a))
       (filter (\<lambda>r. run_tenant_id r = tenantId \<and> d_month (pay_date r) = month \<and>
                     d_year (pay_date r) = year \<and> run_status r = ''completed'')
          (payroll_runs db)))"

definition run_groups :: "database \<Rightarrow> ident \<Rightarrow> run_group list" where
  \<comment> \<open>\<open>SELECT EXTRACT(MONTH FROM pay_date) as month, EXTRACT(YEAR FROM pay_date) as year,
      status, COUNT(*) as count FROM payroll_runs WHERE tenant_id = $1
      GROUP BY EXTRACT(MONTH FROM pay_date), EXTRACT(YEAR FROM pay_date), status
      ORDER BY year DESC, month DESC\<close>\<close>
  "run_groups db tenantId =
     (let rows = filter (\<lambda>r. run_tenant_id r = tenantId) (payroll_runs db);
          key = (\<lambda>r. (d_month (pay_date r), d_year (pay_date r), run_status r));
          groups = map (\<lambda>(m, y, s).
                      \<lparr>g_month = m, g_year = y, g_status = s,
                       g_count = length (filter (\<lambda>r. key r = (m, y, s)) rows)\<rparr>)
                    (remdups (map key rows))
      in order_by (\<lambda>a b. g_year b < g_year a \<or>
                          (g_year b = g_year a \<and>
                            (g_month b < g_month a \<or>
                             (g_month b = g_month a \<and> served_before db a b)))) groups)"

definition select_run_groups :: "database \<Rightarrow> ident \<Rightarrow> run_group list" where
  \<comment> \<open>the statement above with its \<open>LIMIT 10\<close>\<close>
  "select_run_groups db tenantId = take 10 (run_groups db tenantId)"

definition select_organization :: "database \<Rightarrow> ident \<Rightarrow> organization list" where
  \<comment> \<open>\<open>SELECT ... FROM organizations WHERE id = $1\<close>; the three statements differ in the
      columns they name (\<open>name, pf_code, company_pan\<close>; \<open>esi_code\<close>;
      \<open>name, company_pan, company_tan\<close>) and each caller reads only those\<close>
  "select_organization db tenantId = filter (\<lambda>org. org_id org = tenantId) (organizations db)"

definition employee_name :: "profile \<Rightarrow> string" where
  \<comment> \<open>\<open>COALESCE(p.first_name || ' ' || p.last_name, p.first_name, p.last_name, '')\<close>\<close>
  "employee_name p =
     (case (first_name p, last_name p) of
        (Some f, Some l) \<Rightarrow> f @ '' '' @ l
      | (Some f, None) \<Rightarrow> f
      | (None, Some l) \<Rightarrow> l
      | (None, None) \<Rightarrow> [])"

definition coalesce0 :: "int option \<Rightarrow> int" where
  "coalesce0 v = (case v of None \<Rightarrow> 0 | Some n \<Rightarrow> n)"

definition joined :: "database \<Rightarrow> (payroll_run_employee \<times> employee \<times> profile) list" where
  \<comment> \<open>\<open>FROM payroll_run_employees pre JOIN employees e ON e.id = pre.employee_id
      JOIN profiles p ON p.id = e.user_id\<close>\<close>
  "joined db =
     [(pre, e, p). pre \<leftarrow> payroll_run_employees db, e \<leftarrow> employees db,
        e_id e = pre_employee_id pre, p \<leftarrow> profiles db, p_id p = user_id e]"

record pf_row =
  pr_employee_id :: string
  pr_uan_number :: "string option"
  pr_employee_name :: string
  pr_gross_pay_cents :: int
  pr_pf_contribution_cents :: int
  pr_epf_wages_cents :: int
  pr_eps_wages_cents :: int

definition pf_project :: "payroll_run_employee \<times> employee \<times> profile \<Rightarrow> pf_row" where
  "pf_project = (\<lambda>(pre, e, p).
     \<lparr>pr_employee_id = employee_id e,
      pr_uan_number = uan_number e,
      pr_employee_name = employee_name p,
      pr_gross_pay_cents = gross_pay_cents pre,
      pr_pf_contribution_cents = coalesce0 (map_of (metadata pre) ''pf_cents''),
      pr_epf_wages_cents = min (gross_pay_cents pre) 1500000,
      pr_eps_wages_cents = min (gross_pay_cents pre) 1500000\<rparr>)"

definition select_pf_employees :: "database \<Rightarrow> ident \<Rightarrow> ident \<Rightarrow> pf_row list" where
  \<comment> \<open>the statement of \<open>generatePFECR\<close>: \<open>WHERE pre.payroll_run_id = $1
      AND pre.status = 'processed' AND e.tenant_id = $2 ORDER BY e.employee_id\<close>\<close>
  "select_pf_employees db runId tenantId =
     order_by (\<lambda>a b. text_le (pr_employee_id a) (pr_employee_id b))
       (map pf_project
          (filter (\<lambda>(pre, e, p). payroll_run_id pre = runId \<and> pre_status pre = ''processed'' \<and>
                                  e_tenant_id e = tenantId)
             (joined db)))"

record esi_row =
  er_employee_id :: string
  er_esi_number :: "string option"
  er_employee_name :: string
  er_gross_pay_cents :: int
  er_days_worked :: int

definition esi_project :: "int \<Rightarrow> payroll_run_employee \<times> employee \<times> profile \<Rightarrow> esi_row" where
  "esi_project days = (\<lambda>(pre, e, p).
     \<lparr>er_employee_id = employee_id e,
      er_esi_number = esi_number e,
      er_employee_name = employee_name p,
      er_gross_pay_cents = gross_pay_cents pre,
      er_days_worked = days\<rparr>)"

definition select_esi_employees :: "database \<Rightarrow> ident \<Rightarrow> ident \<Rightarrow> int \<Rightarrow> esi_row list" where
  \<comment> \<open>the statement of \<open>generateESIReturn\<close>: \<open>$3 as days_worked\<close>, and
      \<open>WHERE pre.payroll_run_id = $1 AND pre.status = 'processed' AND e.tenant_id = $2
      AND pre.gross_pay_cents <= 2100000 ORDER BY e.employee_id\<close>\<close>
  "select_esi_employees db runId tenantId days =
     order_by (\<lambda>a b. text_le (er_employee_id a) (er_employee_id b))
       (map (esi_project days)
          (filter (\<lambda>(pre, e, p). payroll_run_id pre = runId \<and> pre_status pre = ''processed'' \<and>
                                  e_tenant_id e = tenantId \<and> gross_pay_cents pre \<le> 2100000)
             (joined db)))"

record tds_row =
  tr_employee_id :: string
  tr_pan_number :: "string option"
  tr_employee_name :: string
  tr_gross_pay_cents :: int
  tr_tds_cents :: int

definition tds_project :: "payroll_run_employee \<times> employee \<times> profile \<Rightarrow> tds_row" where
  "tds_project = (\<lambda>(pre, e, p).
     \<lparr>tr_employee_id = employee_id e,
      tr_pan_number = pan_number e,
      tr_employee_name = employee_name p,
      tr_gross_pay_cents = gross_pay_cents pre,
      tr_tds_cents = coalesce0 (map_of (metadata pre) ''tds_cents'')\<rparr>)"

definition select_tds_employees :: "database \<Rightarrow> ident \<Rightarrow> ident \<Rightarrow> tds_row list" where
  \<comment> \<open>the statement of \<open>generateTDSSummary\<close>: \<open>WHERE pre.payroll_run_id = $1
      AND pre.status = 'processed' AND e.tenant_id = $2
      AND COALESCE((pre.metadata->>'tds_cents')::bigint, 0) > 0 ORDER BY e.employee_id\<close>\<close>
  "select_tds_employees db runId tenantId =
     order_by (\<lambda>a b. text_le (tr_employee_id a) (tr_employee_id b))
       (map tds_project
          (filter (\<lambda>(pre, e, p). payroll_run_id pre = runId \<and> pre_status pre = ''processed'' \<and>
                                  e_tenant_id e = tenantId \<and>
                                  0 < coalesce0 (map_of (metadata pre) ''tds_cents''))
             (joined db)))"

subsection \<open>Effects: the statements issued, errors, the console\<close>

datatype error = Error string

datatype statement =
  SelectCompletedRun | SelectRunGroups | SelectOrganization
| SelectPFEmployees | SelectESIEmployees | SelectTDSEmployees

record world =
  store :: database
  issued :: "statement list"
  console :: "(string \<times> error) list"

definition query :: "statement \<Rightarrow> world \<Rightarrow> world" where
  \<comment> \<open>\<open>await query(...)\<close>: every statement of the service is a \<open>SELECT\<close>; issuing it is
      recorded, the store stays as it is, and the rows are read from the store\<close>
  "query st w = w\<lparr>issued := issued w @ [st]\<rparr>"

definition catch_log :: "string \<Rightarrow> (error + 'a) \<times> world \<Rightarrow> (error + 'a) \<times> world" where
  \<comment> \<open>\<open>try { ... } catch (error) { console.error(label, error); throw error; }\<close>\<close>
  "catch_log label rw =
     (case rw of
        (Inl e, w) \<Rightarrow> (Inl e, w\<lparr>console := console w @ [(label, e)]\<rparr>)
      | (Inr v, w) \<Rightarrow> (Inr v, w))"

subsection \<open>getPayrollRunForMonth\<close>

definition month_year :: "run_group \<Rightarrow> string" where
  \<comment> \<open>\<open>`${row.month}/${row.year}`\<close>\<close>
  "month_year row = js_String (g_month row) @ ''/'' @ js_String (g_year row)"

definition lookup_message :: "int \<Rightarrow> int \<Rightarrow> run_group list \<Rightarrow> string" where
  "lookup_message month year rows =
     (let errorMessage =
            ''No completed payroll run found for '' @ js_String month @ ''/'' @ js_String year @ ''.''
      in if 0 < length rows then
           (let availableRuns =
                  join '', '' (map month_year (filter (\<lambda>row. g_status row = ''completed'') rows))
            in if availableRuns \<noteq> [] then
                 errorMessage @ '' Available completed payroll runs: '' @ availableRuns @ ''.''
               else
                 (let allRuns =
                        join '', '' (map (\<lambda>row. month_year row @ '' ('' @ g_status row @ '')'') rows)
                  in errorMessage @ '' Available payroll runs: '' @ allRuns @
                       ''. Please complete a payroll run first.''))
         else
           errorMessage @
             '' No payroll runs found for this organization. Please create and process a payroll run first.'')"

definition getPayrollRunForMonth ::
    "ident \<Rightarrow> int \<Rightarrow> int \<Rightarrow> world \<Rightarrow> (error + payroll_run) \<times> world" where
  "getPayrollRunForMonth tenantId month year w =
     (let w1 = query SelectCompletedRun w
      in case select_completed_run (store w1) tenantId month year of
           [] \<Rightarrow>
             (let w2 = query SelectRunGroups w1;
                  anyRunsResult = select_run_groups (store w2) tenantId
              in (Inl (Error (lookup_message month year anyRunsResult)), w2))
         | row # _ \<Rightarrow> (Inr row, w1))"

subsection \<open>generatePFECR\<close>

definition pf_header :: "organization \<Rightarrow> int \<Rightarrow> int \<Rightarrow> pf_row list \<Rightarrow> string" where
  "pf_header org month year rows =
     (let totalEPF = foldl (\<lambda>sum emp. js_add sum (ToNumber (pr_pf_contribution_cents emp))) 0 rows;
          totalEPS = Math_round (js_mul totalEPF lit_0_8333);
          totalEDLI = Math_round (js_mul totalEPF lit_0_0005)
      in join ''|''
           [or_empty (pf_code org),
            padStart 2 (CHR ''0'') (js_String month),
            js_String year,
            js_String (int (length rows)),
            js_String (Math_round (js_div totalEPF 100)),
            js_String (Math_round (js_div (of_int totalEPS) 100)),
            js_String (Math_round (js_div (of_int totalEDLI) 100))])"

definition pf_record_fields :: "pf_row \<Rightarrow> string list" where
  "pf_record_fields emp =
     (let uan = or_empty (pr_uan_number emp);
          name = toUpperCase (trim (pr_employee_name emp));
          grossWages = Math_round (js_div (ToNumber (pr_gross_pay_cents emp)) 100);
          epfWages = Math_round (js_div (ToNumber (pr_epf_wages_cents emp)) 100);
          epsWages = Math_round (js_div (ToNumber (pr_eps_wages_cents emp)) 100);
          epfContribution = Math_round (js_div (ToNumber (pr_pf_contribution_cents emp)) 100);
          epsContribution = Math_round (js_mul (of_int epfContribution) lit_0_8333);
          edliContribution = Math_round (js_mul (of_int epfContribution) lit_0_0005)
      in [uan, name, js_String grossWages, js_String epfWages, js_String epsWages,
          js_String epfContribution, js_String epsContribution, js_String edliContribution])"

definition pf_record :: "pf_row \<Rightarrow> string" where
  "pf_record emp = join ''|'' (pf_record_fields emp)"

definition generatePFECR :: "ident \<Rightarrow> int \<Rightarrow> int \<Rightarrow> world \<Rightarrow> (error + string) \<times> world" where
  "generatePFECR tenantId month year w =
     catch_log ''Error generating PF ECR:''
       (case getPayrollRunForMonth tenantId month year w of
          (Inl e, w1) \<Rightarrow> (Inl e, w1)
        | (Inr payrollRun, w1) \<Rightarrow>
            (let w2 = query SelectOrganization w1
             in case select_organization (store w2) tenantId of
                  [] \<Rightarrow> (Inl (Error ''Organization not found''), w2)
                | org # _ \<Rightarrow>
                    if falsy (pf_code org)
                    then (Inl (Error ''PF Code not configured for organization''), w2)
                    else
                      (let w3 = query SelectPFEmployees w2;
                           rows = select_pf_employees (store w3) (run_id payrollRun) tenantId
                       in if length rows = 0
                          then (Inl (Error ''No employees found in payroll run''), w3)
                          else (Inr (join newline
                                       (pf_header org month year rows # map pf_record rows)), w3))))"

subsection \<open>generateESIReturn\<close>

definition escapeCSV :: "string \<Rightarrow> string" where
  \<comment> \<open>the local function of the row loop, on \<open>String(value)\<close>\<close>
  "escapeCSV str =
     (if CHR '','' \<in> set str \<or> CHR 0x22 \<in> set str \<or> CHR 0x0A \<in> set str
      then [CHR 0x22] @ concat (map (\<lambda>c. if c = CHR 0x22 then [CHR 0x22, CHR 0x22] else [c]) str)
             @ [CHR 0x22]
      else str)"

definition esi_record_fields :: "int \<Rightarrow> esi_row \<Rightarrow> string list" where
  "esi_record_fields daysInMonth emp =
     (let ipNumber = (if \<not> falsy (er_esi_number emp) then or_empty (er_esi_number emp)
                      else if er_employee_id emp \<noteq> [] then er_employee_id emp else []);
          ipName = trim (er_employee_name emp);
          daysWorked = (if er_days_worked emp \<noteq> 0 then er_days_worked emp else daysInMonth);
          wages = Math_round (js_div (ToNumber (er_gross_pay_cents emp)) 100)
      in [escapeCSV ipNumber, escapeCSV ipName, escapeCSV (js_String daysWorked),
          escapeCSV (js_String wages)])"

definition esi_record :: "int \<Rightarrow> esi_row \<Rightarrow> string" where
  "esi_record daysInMonth emp = join '','' (esi_record_fields daysInMonth emp)"

definition generateESIReturn :: "ident \<Rightarrow> int \<Rightarrow> int \<Rightarrow> world \<Rightarrow> (error + string) \<times> world" where
  "generateESIReturn tenantId month year w =
     catch_log ''Error generating ESI Return:''
       (case getPayrollRunForMonth tenantId month year w of
          (Inl e, w1) \<Rightarrow> (Inl e, w1)
        | (Inr payrollRun, w1) \<Rightarrow>
            (let w2 = query SelectOrganization w1
             in case map esi_code (select_organization (store w2) tenantId) of
                  [] \<Rightarrow> (Inl (Error ''Organization not found''), w2)
                | org # _ \<Rightarrow>
                    (let daysInMonth = js_date_day0_getDate year month;
                         w3 = query SelectESIEmployees w2;
                         rows = select_esi_employees (store w3) (run_id payrollRun) tenantId
                                  daysInMonth
                     in if length rows = 0
                        then (Inl (Error ''No employees eligible for ESI in this payroll run''), w3)
                        else (Inr (join newline
                                     (''IP Number,IP Name,Days Worked,Wages'' #
                                      map (esi_record daysInMonth) rows)), w3))))"

subsection \<open>generateTDSSummary\<close>

record tds_organization =
  o_name :: string
  o_pan :: string
  o_tan :: string

record tds_period =
  period_month :: int
  period_year :: int
  period_pay_date :: date

record tds_employee =
  te_employee_id :: string
  te_pan :: string
  te_name :: string
  te_gross_pay :: int
  te_tds_deducted :: int
  te_section :: string

record tds_section =
  s_section :: string
  s_description :: string
  s_total_amount :: number
  s_employee_count :: nat
  s_employees :: "tds_employee list"

record tds_summary =
  summary_organization :: tds_organization
  summary_period :: tds_period
  total_tds :: number
  total_employees :: nat
  by_section :: "(string \<times> tds_section) list"
  summary_employees :: "tds_employee list"

definition update_entry :: "string \<Rightarrow> ('v \<Rightarrow> 'v) \<Rightarrow> (string \<times> 'v) list \<Rightarrow> (string \<times> 'v) list" where
  \<comment> \<open>the in-place update of the object stored under a key\<close>
  "update_entry k f kvs = map (\<lambda>(k', v). if k' = k then (k', f v) else (k', v)) kvs"

definition tds_initial :: "organization \<Rightarrow> int \<Rightarrow> int \<Rightarrow> payroll_run \<Rightarrow> tds_row list \<Rightarrow> tds_summary" where
  "tds_initial org month year payrollRun rows =
     \<lparr>summary_organization =
        \<lparr>o_name = or_empty (org_name org), o_pan = or_empty (company_pan org),
         o_tan = or_empty (company_tan org)\<rparr>,
      summary_period =
        \<lparr>period_month = month, period_year = year, period_pay_date = pay_date payrollRun\<rparr>,
      total_tds = 0,
      total_employees = length rows,
      by_section =
        [(''192B'',
          \<lparr>s_section = ''192B'', s_description = ''Tax Deducted at Source on Salary'',
           s_total_amount = 0, s_employee_count = 0, s_employees = []\<rparr>)],
      summary_employees = []\<rparr>"

definition tds_add_employee :: "tds_summary \<Rightarrow> tds_row \<Rightarrow> tds_summary" where
  \<comment> \<open>the body of \<open>tdsResult.rows.forEach\<close>; the counter is a natural number, a JavaScript
      array being shorter than \<open>2 ^ 32\<close>\<close>
  "tds_add_employee summary emp =
     (let tdsAmount = Math_round (js_div (ToNumber (tr_tds_cents emp)) 100);
          employeeRecord =
            \<lparr>te_employee_id = tr_employee_id emp,
             te_pan = or_empty (tr_pan_number emp),
             te_name = trim (tr_employee_name emp),
             te_gross_pay = Math_round (js_div (ToNumber (tr_gross_pay_cents emp)) 100),
             te_tds_deducted = tdsAmount,
             te_section = ''192B''\<rparr>
      in summary
           \<lparr>total_tds := js_add (total_tds summary) (of_int tdsAmount),
            summary_employees := summary_employees summary @ [employeeRecord],
            by_section :=
              update_entry ''192B''
                (\<lambda>s. s\<lparr>s_total_amount := js_add (s_total_amount s) (of_int tdsAmount),
                        s_employee_count := s_employee_count s + 1,
                        s_employees := s_employees s @ [employeeRecord]\<rparr>)
                (by_section summary)\<rparr>)"

definition generateTDSSummary ::
    "ident \<Rightarrow> int \<Rightarrow> int \<Rightarrow> world \<Rightarrow> (error + tds_summary) \<times> world" where
  "generateTDSSummary tenantId month year w =
     catch_log ''Error generating TDS Summary:''
       (case getPayrollRunForMonth tenantId month year w of
          (Inl e, w1) \<Rightarrow> (Inl e, w1)
        | (Inr payrollRun, w1) \<Rightarrow>
            (let w2 = query SelectOrganization w1
             in case select_organization (store w2) tenantId of
                  [] \<Rightarrow> (Inl (Error ''Organization not found''), w2)
                | org # _ \<Rightarrow>
                    (let w3 = query SelectTDSEmployees w2;
                         rows = select_tds_employees (store w3) (run_id payrollRun) tenantId
                     in (Inr (foldl tds_add_employee
                                (tds_initial org month year payrollRun rows) rows), w3))))"

section \<open>Notions of the specification\<close>

text \<open>
  The definitions of this section are not in the source: they say in HOL what the
  specification's words mean, so that the code can be compared with them.
\<close>

definition processed_employee ::
    "database \<Rightarrow> ident \<Rightarrow> ident \<Rightarrow> payroll_run_employee \<times> employee \<times> profile \<Rightarrow> bool" where
  \<comment> \<open>a processed employee of a run, for a tenant: an outcome row of the run with status
      \<open>processed\<close>, together with the tenant's employee it belongs to and the profile of that
      employee\<close>
  "processed_employee db runId tenantId = (\<lambda>(pre, e, p).
     pre \<in> set (payroll_run_employees db) \<and> e \<in> set (employees db) \<and> p \<in> set (profiles db) \<and>
     e_id e = pre_employee_id pre \<and> p_id p = user_id e \<and>
     payroll_run_id pre = runId \<and> pre_status pre = ''processed'' \<and> e_tenant_id e = tenantId)"

definition completed_run_for :: "database \<Rightarrow> ident \<Rightarrow> int \<Rightarrow> int \<Rightarrow> payroll_run \<Rightarrow> bool" where
  \<comment> \<open>a completed run of the tenant whose pay date falls in the month of the year\<close>
  "completed_run_for db tenantId month year r =
     (r \<in> set (payroll_runs db) \<and> run_tenant_id r = tenantId \<and>
      d_month (pay_date r) = month \<and> d_year (pay_date r) = year \<and> run_status r = ''completed'')"

definition group_of :: "database \<Rightarrow> ident \<Rightarrow> payroll_run \<Rightarrow> run_group" where
  \<comment> \<open>the (month, year, status) group of a run, with the number of the tenant's runs in it\<close>
  "group_of db tenantId r =
     \<lparr>g_month = d_month (pay_date r), g_year = d_year (pay_date r), g_status = run_status r,
      g_count = length (filter (\<lambda>r'. run_tenant_id r' = tenantId \<and>
                          d_month (pay_date r') = d_month (pay_date r) \<and>
                          d_year (pay_date r') = d_year (pay_date r) \<and>
                          run_status r' = run_status r) (payroll_runs db))\<rparr>"

definition newer_or_same :: "run_group \<Rightarrow> run_group \<Rightarrow> bool" where
  \<comment> \<open>\<open>ORDER BY year DESC, month DESC\<close>: the first group may stand before the second\<close>
  "newer_or_same a b = (g_year b < g_year a \<or> (g_year b = g_year a \<and> g_month b \<le> g_month a))"

definition ip_number :: "employee \<Rightarrow> string" where
  \<comment> \<open>the ESI number, falling back to the employee id, falling back to empty\<close>
  "ip_number e =
     (case esi_number e of
        None \<Rightarrow> employee_id e
      | Some n \<Rightarrow> if n = [] then employee_id e else n)"

definition calendar_days :: "int \<Rightarrow> int \<Rightarrow> int" where
  \<comment> \<open>the days of a month (1 to 12) of a year of the Gregorian calendar\<close>
  "calendar_days year month =
     (if month = 2 then (if leap_year year then 29 else 28)
      else if month \<in> {4, 6, 9, 11} then 30 else 31)"

definition valid_date :: "date \<Rightarrow> bool" where
  \<comment> \<open>a date of the common era that exists in the calendar\<close>
  "valid_date d =
     (1 \<le> d_year d \<and> 1 \<le> d_month d \<and> d_month d \<le> 12 \<and>
      1 \<le> d_day d \<and> d_day d \<le> calendar_days (d_year d) (d_month d))"

fun undouble :: "string \<Rightarrow> string" where
  "undouble (a # b # cs) =
     (if a = CHR 0x22 \<and> b = CHR 0x22 then CHR 0x22 # undouble cs else a # undouble (b # cs))"
| "undouble cs = cs"

definition unescapeCSV :: "string \<Rightarrow> string" where
  \<comment> \<open>reading a field back as RFC 4180 has it: a field enclosed in double quotes stands for
      its inside with every doubled quote taken once, any other field for itself\<close>
  "unescapeCSV s =
     (if 2 \<le> length s \<and> hd s = CHR 0x22 \<and> last s = CHR 0x22
      then undouble (butlast (tl s)) else s)"

definition minor_units_eps :: "int \<Rightarrow> int" where
  \<comment> \<open>the EPS contribution of a record as the specification derives it: from the PF
      contribution in minor units, divided by 100 only for the output\<close>
  "minor_units_eps pf_cents =
     Math_round (js_div (of_int (Math_round (js_mul (ToNumber pf_cents) lit_0_8333))) 100)"

definition minor_units_edli :: "int \<Rightarrow> int" where
  "minor_units_edli pf_cents =
     Math_round (js_div (of_int (Math_round (js_mul (ToNumber pf_cents) lit_0_0005))) 100)"

section \<open>Example stores\<close>

definition on_day :: "int \<Rightarrow> int \<Rightarrow> int \<Rightarrow> date" where
  "on_day y m d = \<lparr>d_year = y, d_month = m, d_day = d\<rparr>"

definition run_paid :: "ident \<Rightarrow> date \<Rightarrow> string \<Rightarrow> payroll_run" where
  \<comment> \<open>a run of tenant 7\<close>
  "run_paid i d st =
     \<lparr>run_id = i, run_tenant_id = 7, pay_period_start = d, pay_period_end = d, pay_date = d,
      run_status = st\<rparr>"

definition org_with :: "string option \<Rightarrow> organization" where
  \<comment> \<open>the organization of tenant 7 with the given PF code\<close>
  "org_with code =
     \<lparr>org_id = 7, org_name = Some ''Acme'', pf_code = code, esi_code = None,
      company_pan = Some ''AAACA0001A'', company_tan = None\<rparr>"

definition processed :: "ident \<Rightarrow> int \<Rightarrow> (string \<times> int) list \<Rightarrow> payroll_run_employee" where
  \<comment> \<open>the processed outcome of an employee in run 5\<close>
  "processed i gross md =
     \<lparr>payroll_run_id = 5, pre_employee_id = i, pre_status = ''processed'',
      gross_pay_cents = gross, metadata = md\<rparr>"

definition example_store ::
    "payroll_run list \<Rightarrow> organization list \<Rightarrow> payroll_run_employee list \<Rightarrow> database" where
  \<comment> \<open>two employees of tenant 7: E1 (Doe, John) and E2 (Asha); the server returns tied
      groups in the order of their status\<close>
  "example_store runs orgs pres =
     \<lparr>payroll_runs = runs,
      organizations = orgs,
      employees =
        [\<lparr>e_id = 1, e_tenant_id = 7, employee_id = ''E1'', user_id = 11,
          uan_number = Some ''100200300400'', esi_number = None, pan_number = Some ''ABCDE1234F''\<rparr>,
         \<lparr>e_id = 2, e_tenant_id = 7, employee_id = ''E2'', user_id = 12,
          uan_number = None, esi_number = Some ''3100000001'', pan_number = None\<rparr>],
      profiles =
        [\<lparr>p_id = 11, first_name = Some ''Doe,'', last_name = Some ''John''\<rparr>,
         \<lparr>p_id = 12, first_name = Some ''Asha'', last_name = None\<rparr>],
      payroll_run_employees = pres,
      served_before = (\<lambda>a b. text_le (g_status a) (g_status b))\<rparr>"

definition march_run :: payroll_run where
  "march_run = run_paid 5 (on_day 2024 3 31) ''completed''"

definition february_run :: payroll_run where
  "february_run = run_paid 5 (on_day 2024 2 29) ''completed''"

definition initial :: "database \<Rightarrow> world" where
  "initial db = \<lparr>store = db, issued = [], console = []\<rparr>"

definition many_drafts :: database where
  \<comment> \<open>a completed run in January 2024 and a draft run in each month from March to December\<close>
  "many_drafts =
     example_store
       (run_paid 2 (on_day 2024 1 31) ''completed'' #
        map (\<lambda>m. run_paid (nat (10 + m)) (on_day 2024 m 28) ''draft'') [3, 4, 5, 6, 7, 8, 9, 10, 11, 12])
       [org_with (Some ''MHBAN0012345000'')] []"

definition esi_boundary :: world where
  \<comment> \<open>E1 earns 2,100,000 minor units, E2 earns 2,100,001\<close>
  "esi_boundary =
     initial (example_store [march_run] [org_with None]
                [processed 1 2100000 [], processed 2 2100001 []])"

definition esi_february :: world where
  \<comment> \<open>a run paid on 29 February 2024 with E1 below the ESI ceiling\<close>
  "esi_february =
     initial (example_store [february_run] [org_with None] [processed 1 2100000 []])"

definition tds_none :: world where
  \<comment> \<open>E1 is processed and has no TDS entry, E2 has one of zero\<close>
  "tds_none =
     initial (example_store [march_run] [org_with None]
                [processed 1 2000000 [(''pf_cents'', 240000)], processed 2 900000 [(''tds_cents'', 0)]])"

definition tds_no_org :: world where
  \<comment> \<open>the same run in a store that has no organization row for the tenant\<close>
  "tds_no_org =
     initial (example_store [march_run] []
                [processed 1 2000000 [(''pf_cents'', 240000)], processed 2 900000 [(''tds_cents'', 0)]])"

definition tds_two :: world where
  "tds_two =
     initial (example_store [march_run] [org_with None]
                [processed 1 8000000 [(''tds_cents'', 123456)], processed 2 2100001 [(''tds_cents'', 50)]])"

definition tds_two_employees :: "tds_employee list" where
  "tds_two_employees =
     [\<lparr>te_employee_id = ''E1'', te_pan = ''ABCDE1234F'', te_name = ''Doe, John'',
       te_gross_pay = 80000, te_tds_deducted = 1235, te_section = ''192B''\<rparr>,
      \<lparr>te_employee_id = ''E2'', te_pan = [], te_name = ''Asha'',
       te_gross_pay = 21000, te_tds_deducted = 1, te_section = ''192B''\<rparr>]"

definition tds_two_summary :: tds_summary where
  \<comment> \<open>the summary of \<open>tds_two\<close> for March 2024\<close>
  "tds_two_summary =
     \<lparr>summary_organization = \<lparr>o_name = ''Acme'', o_pan = ''AAACA0001A'', o_tan = []\<rparr>,
      summary_period =
        \<lparr>period_month = 3, period_year = 2024, period_pay_date = on_day 2024 3 31\<rparr>,
      total_tds = 1236,
      total_employees = 2,
      by_section =
        [(''192B'',
          \<lparr>s_section = ''192B'', s_description = ''Tax Deducted at Source on Salary'',
           s_total_amount = 1236, s_employee_count = 2, s_employees = tds_two_employees\<rparr>)],
      summary_employees = tds_two_employees\<rparr>"

definition no_outcomes :: world where
  \<comment> \<open>a completed run without any employee outcome\<close>
  "no_outcomes = initial (example_store [march_run] [org_with (Some ''MHBAN0012345000'')] [])"

definition no_runs :: world where
  \<comment> \<open>a tenant without any payroll run\<close>
  "no_runs = initial (example_store [] [org_with None] [])"

definition pf_example :: world where
  \<comment> \<open>the example of the specification: gross pay 2,000,000 and PF 240,000 minor units\<close>
  "pf_example =
     initial (example_store [march_run] [org_with (Some ''MHBAN0012345000'')]
                [processed 1 2000000 [(''pf_cents'', 240000)]])"

definition pf_small :: world where
  \<comment> \<open>two employees with a PF contribution of 160 minor units each\<close>
  "pf_small =
     initial (example_store [march_run] [org_with (Some ''MHBAN0012345000'')]
                [processed 1 2000000 [(''pf_cents'', 160)], processed 2 1234567 [(''pf_cents'', 160)]])"

definition esi_two :: world where
  \<comment> \<open>E1 has no ESI number, E2 has one; both are within the ceiling\<close>
  "esi_two =
     initial (example_store [march_run] [org_with None]
                [processed 1 2100000 [], processed 2 900000 []])"

definition tied_groups :: database where
  \<comment> \<open>two draft runs and a processing run paid in March 2024, a draft run paid in January\<close>
  "tied_groups =
     example_store
       [run_paid 21 (on_day 2024 3 28) ''draft'', run_paid 22 (on_day 2024 1 31) ''draft'',
        run_paid 23 (on_day 2024 3 30) ''processing'', run_paid 24 (on_day 2024 3 29) ''draft'']
       [org_with None] []"

definition tied_groups_reversed :: database where
  \<comment> \<open>the same store on a server that returns tied groups in the opposite order\<close>
  "tied_groups_reversed =
     tied_groups\<lparr>served_before := (\<lambda>a b. text_le (g_status b) (g_status a))\<rparr>"

section \<open>Properties of the embedding\<close>

subsection \<open>Numbers: integers up to \<open>2 ^ 53\<close> are exact\<close>

lemma round_half_even_of_int [simp]: "round_half_even (of_int k) = k"
  by (simp add: round_half_even_def)

lemma binexp_bounds:
  assumes "x \<noteq> 0"
  shows "2 powi (binexp x) \<le> \<bar>x\<bar> \<and> \<bar>x\<bar> < 2 powi (binexp x + 1)"
proof -
  obtain p q where pq: "quotient_of \<bar>x\<bar> = (p, q)" by (cases "quotient_of \<bar>x\<bar>")
  have q: "0 < q" using quotient_of_denom_pos [OF pq] .
  have x: "\<bar>x\<bar> = of_int p / of_int q" using quotient_of_div [OF pq] .
  have "0 < \<bar>x\<bar>" using assms by simp
  with x q have p: "0 < p"
    by (simp add: zero_less_divide_iff)
  define bp where "bp = bitlen p"
  define bq where "bq = bitlen q"
  have bp: "2 ^ nat (bp - 1) \<le> p" "p < 2 ^ nat bp" using bitlen_bounds [OF p] by (simp_all add: bp_def)
  have bq: "2 ^ nat (bq - 1) \<le> q" "q < 2 ^ nat bq" using bitlen_bounds [OF q] by (simp_all add: bq_def)
  have bp1: "1 \<le> bp" using p by (simp add: bp_def bitlen_alt_def)
  have bq1: "1 \<le> bq" using q by (simp add: bq_def bitlen_alt_def)
  have up: "\<bar>x\<bar> < 2 powi (bp - bq + 1)"
  proof -
    have "(of_int p :: rat) < 2 powi bp"
      using bp(2) bp1 by (metis of_int_less_numeral_power_cancel_iff power_int_def zero_le_one order_trans)
    moreover have "(2::rat) powi (bq - 1) \<le> of_int q"
      using bq(1) bq1 by (metis numeral_power_le_of_int_cancel_iff power_int_def diff_ge_0_iff_ge)
    ultimately have "of_int p * (2::rat) powi (bq - 1) < 2 powi bp * of_int q"
      using p q by (intro mult_less_le_imp_less) auto
    then have "of_int p / of_int q < (2::rat) powi bp / 2 powi (bq - 1)"
      using q by (simp add: divide_simps mult.commute)
    also have "(2::rat) powi bp / 2 powi (bq - 1) = 2 powi (bp - bq + 1)"
      by (simp add: power_int_diff [symmetric] algebra_simps)
    finally show ?thesis using x by simp
  qed
  have lo: "2 powi (bp - bq - 1) \<le> \<bar>x\<bar>"
  proof -
    have "(2::rat) powi (bp - 1) \<le> of_int p"
      using bp(1) bp1 by (metis numeral_power_le_of_int_cancel_iff power_int_def diff_ge_0_iff_ge)
    moreover have "(of_int q :: rat) \<le> 2 powi bq"
      using bq(2) bq1 by (metis of_int_less_numeral_power_cancel_iff power_int_def zero_le_one order_trans less_imp_le)
    ultimately have "(2::rat) powi (bp - 1) * of_int q \<le> of_int p * 2 powi bq"
      using p q by (intro mult_mono) (auto simp: less_imp_le)
    then have "(2::rat) powi (bp - 1) / 2 powi bq \<le> of_int p / of_int q"
      using q by (simp add: divide_simps mult.commute)
    moreover have "(2::rat) powi (bp - 1) / 2 powi bq = 2 powi (bp - bq - 1)"
      by (simp add: power_int_diff [symmetric] algebra_simps)
    ultimately show ?thesis using x by simp
  qed
  have e: "binexp x = (if 2 powi (bp - bq) \<le> \<bar>x\<bar> then bp - bq else bp - bq - 1)"
    by (simp add: binexp_def pq bp_def bq_def)
  show ?thesis
  proof (cases "2 powi (bp - bq) \<le> \<bar>x\<bar>")
    case True
    with e up show ?thesis by simp
  next
    case False
    with e lo show ?thesis by simp
  qed
qed


lemma powi2_le_iff: "(2::rat) powi a \<le> 2 powi b \<longleftrightarrow> a \<le> b"
proof
  assume le: "(2::rat) powi a \<le> 2 powi b"
  show "a \<le> b"
  proof (rule ccontr)
    assume "\<not> a \<le> b"
    then have "(2::rat) powi b < 2 powi a" by (intro power_int_strict_increasing) auto
    with le show False by simp
  qed
next
  assume "a \<le> b"
  then show "(2::rat) powi a \<le> 2 powi b" by (intro power_int_increasing) auto
qed

lemma powi2_less_iff: "(2::rat) powi a < 2 powi b \<longleftrightarrow> a < b"
  using powi2_le_iff [of b a] by (auto simp: not_le [symmetric])

lemma fl_of_int:
  assumes "\<bar>n\<bar> \<le> 2 ^ 53"
  shows "fl (of_int n) = of_int n"
proof (cases "n = 0")
  case True
  then show ?thesis by (simp add: fl_def)
next
  case False
  define x :: rat where "x = of_int n"
  define e where "e = binexp x"
  have x0: "x \<noteq> 0" using False by (simp add: x_def)
  have ax: "\<bar>x\<bar> = of_int \<bar>n\<bar>" by (simp add: x_def)
  from binexp_bounds [OF x0] have b: "2 powi e \<le> \<bar>x\<bar>" "\<bar>x\<bar> < 2 powi (e + 1)"
    by (simp_all add: e_def)
  have "(1::rat) \<le> \<bar>x\<bar>" using False by (simp add: ax) 
  with b(2) have "(2::rat) powi 0 < 2 powi (e + 1)" by simp
  then have e0: "0 \<le> e" by (simp only: powi2_less_iff)
  have "\<bar>x\<bar> \<le> 2 powi 53" using assms unfolding ax
    by (metis of_int_le_numeral_power_cancel_iff power_int_numeral numeral_Bit1 power_int_def zero_le_numeral nat_numeral) 
  with b(1) have "(2::rat) powi e \<le> 2 powi 53" by simp
  then have e53: "e \<le> 53" by (simp only: powi2_le_iff)
  show ?thesis
  proof (cases "e \<le> 52")
    case True
    have "x / 2 powi (e - 52) = x * 2 powi (52 - e)"
      by (simp add: power_int_diff field_simps)
    also have "\<dots> = of_int (n * 2 ^ nat (52 - e))"
      using True by (simp add: x_def power_int_def)
    finally have "round_half_even (x / 2 powi (e - 52)) = n * 2 ^ nat (52 - e)"
      by (simp only: round_half_even_of_int)
    then have "fl x = of_int (n * 2 ^ nat (52 - e)) * 2 powi (e - 52)"
      using x0 by (simp add: fl_def Let_def e_def)
    also have "\<dots> = x * (2 powi (52 - e) * 2 powi (e - 52))"
      using True by (simp add: x_def power_int_def)
    also have "(2::rat) powi (52 - e) * 2 powi (e - 52) = 1"
      by (simp add: power_int_add [symmetric])
    finally show ?thesis by (simp add: x_def)
  next
    case False
    with e53 have e: "e = 53" by simp
    from b(1) have "(2::rat) ^ 53 \<le> of_int \<bar>n\<bar>" by (simp add: e ax)
    then have "2 ^ 53 \<le> \<bar>n\<bar>" by (metis numeral_power_le_of_int_cancel_iff)
    with assms have n: "\<bar>n\<bar> = 2 ^ 53" by simp
    then consider "n = 2 ^ 53" | "n = - (2 ^ 53)" by (auto simp: abs_if split: if_splits)
    then show ?thesis
    proof cases
      case 1
      have "fl x = of_int (round_half_even (x / 2)) * 2"
        using x0 e by (simp add: fl_def Let_def e_def [symmetric])
      also have "x / 2 = of_int (2 ^ 52)" by (simp add: x_def 1)
      finally show ?thesis by (simp only: round_half_even_of_int) (simp add: x_def 1)
    next
      case 2
      have "fl x = of_int (round_half_even (x / 2)) * 2"
        using x0 e by (simp add: fl_def Let_def e_def [symmetric])
      also have "x / 2 = of_int (- (2 ^ 52))" by (simp add: x_def 2)
      finally show ?thesis by (simp only: round_half_even_of_int) (simp add: x_def 2)
    qed
  qed
qed


lemma round_half_even_nonneg: "0 \<le> x \<Longrightarrow> 0 \<le> round_half_even x"
  by (simp add: round_half_even_def Let_def)

lemma fl_nonneg: "0 \<le> x \<Longrightarrow> 0 \<le> fl x"
  by (simp add: fl_def Let_def round_half_even_nonneg)

lemma ToNumber_exact: "\<bar>n\<bar> \<le> 2 ^ 53 \<Longrightarrow> ToNumber n = of_int n"
  by (simp add: ToNumber_def fl_of_int)

lemma js_add_exact: "\<bar>a + b\<bar> \<le> 2 ^ 53 \<Longrightarrow> js_add (of_int a) (of_int b) = of_int (a + b)"
  using fl_of_int [of "a + b"] by (simp add: js_add_def)

lemma js_sum_exact:
  "\<bar>a\<bar> + sum_list (map abs xs) \<le> 2 ^ 53 \<Longrightarrow>
   foldl (\<lambda>acc x. js_add acc (of_int x)) (of_int a) xs = of_int (a + sum_list xs)"
proof (induction xs arbitrary: a)
  case Nil
  show ?case by simp
next
  case (Cons x xs)
  have "0 \<le> sum_list (map abs xs)" by (rule sum_list_nonneg) auto
  with Cons.prems have "\<bar>a + x\<bar> \<le> 2 ^ 53" by simp
  then have "js_add (of_int a) (of_int x) = of_int (a + x)" by (rule js_add_exact)
  moreover from Cons.prems have "\<bar>a + x\<bar> + sum_list (map abs xs) \<le> 2 ^ 53" by simp
  ultimately show ?case using Cons.IH [of "a + x"] by (simp add: add.assoc)
qed

lemma js_sum_ToNumber_exact:
  assumes "sum_list (map abs xs) \<le> 2 ^ 53"
  shows "foldl (\<lambda>acc x. js_add acc (ToNumber x)) 0 xs = of_int (sum_list xs)"
proof -
  have "\<bar>x\<bar> \<le> 2 ^ 53" if "x \<in> set xs" for x
  proof -
    from that have "\<bar>x\<bar> \<le> sum_list (map abs xs)"
      by (intro member_le_sum_list) auto
    with assms show ?thesis by simp
  qed
  then have "foldl (\<lambda>acc x. js_add acc (ToNumber x)) a xs =
             foldl (\<lambda>acc x. js_add acc (of_int x)) a xs" for a
    by (induction xs arbitrary: a) (simp_all add: ToNumber_exact)
  with js_sum_exact [of 0 xs] assms show ?thesis by simp
qed

subsection \<open>Numbers: rounding agrees with integer arithmetic in the safe range\<close>

lemma round_half_even_error: "\<bar>of_int (round_half_even t) - t\<bar> \<le> 1 / 2"
proof -
  define d where "d = t - of_int \<lfloor>t\<rfloor>"
  have d: "0 \<le> d" "d < 1" unfolding d_def by linarith+
  have t: "t = of_int \<lfloor>t\<rfloor> + d" by (simp add: d_def)
  consider "d < 1 / 2" | "1 / 2 < d" | "d = 1 / 2" by linarith
  then show ?thesis
  proof cases
    case 1
    then have "round_half_even t = \<lfloor>t\<rfloor>"
      by (simp add: round_half_even_def Let_def d_def)
    then have "of_int (round_half_even t) - t = - d" by (simp add: d_def)
    with 1 d show ?thesis by simp
  next
    case 2
    then have "round_half_even t = \<lfloor>t\<rfloor> + 1"
      by (simp add: round_half_even_def Let_def d_def)
    then have "of_int (round_half_even t) - t = 1 - d" by (simp add: d_def)
    with 2 d show ?thesis by simp
  next
    case 3
    then have "round_half_even t = \<lfloor>t\<rfloor> \<or> round_half_even t = \<lfloor>t\<rfloor> + 1"
      by (simp add: round_half_even_def Let_def d_def)
    then have "of_int (round_half_even t) - t = - d \<or> of_int (round_half_even t) - t = 1 - d"
      by (auto simp: d_def)
    with 3 show ?thesis by auto
  qed
qed

lemma round_half_even_ge_floor: "\<lfloor>t\<rfloor> \<le> round_half_even t"
  by (simp add: round_half_even_def Let_def)

lemma fl_error:
  assumes "x \<noteq> 0"
  shows "\<bar>fl x - x\<bar> \<le> 2 powi (binexp x - 53)"
proof -
  define u :: rat where "u = 2 powi (binexp x - 52)"
  have u: "0 < u" by (simp add: u_def)
  have "fl x - x = (of_int (round_half_even (x / u)) - x / u) * u"
    using assms u by (simp add: fl_def Let_def u_def [symmetric] field_simps)
  then have "\<bar>fl x - x\<bar> = \<bar>of_int (round_half_even (x / u)) - x / u\<bar> * u"
    using u by (simp add: abs_mult)
  also have "\<dots> \<le> (1 / 2) * u"
    using u round_half_even_error [of "x / u"] by (intro mult_right_mono) auto
  also have "(1 / 2) * u = 2 powi (binexp x - 53)"
    by (simp add: u_def power_int_diff)
  finally show ?thesis .
qed

lemma binexp_less:
  assumes "x \<noteq> 0" "\<bar>x\<bar> < 2 powi k"
  shows "binexp x < k"
proof -
  from binexp_bounds [OF assms(1)] assms(2) have "(2::rat) powi binexp x < 2 powi k" by simp
  then show ?thesis by (simp only: powi2_less_iff)
qed

lemma fl_ge_half_integer:
  assumes "x \<noteq> 0" "binexp x \<le> 51" "of_int n / 2 \<le> x"
  shows "of_int n / 2 \<le> fl x"
proof -
  define e where "e = binexp x"
  define u :: rat where "u = 2 powi (e - 52)"
  define m where "m = n * 2 ^ nat (51 - e)"
  have u: "0 < u" by (simp add: u_def)
  have "(1::rat) / u = 2 powi (52 - e)"
    by (simp add: u_def power_int_diff field_simps)
  also have "\<dots> = 2 * 2 ^ nat (51 - e)"
    using assms(2) by (simp add: e_def power_int_def nat_diff_distrib' flip: power_Suc)
  finally have inv: "1 / u = 2 * 2 ^ nat (51 - e)" .
  have "of_int m = (of_int n / 2) * (1 / u)"
    by (simp add: inv m_def)
  also have "\<dots> \<le> x * (1 / u)"
    using assms(3) u by (intro mult_right_mono) auto
  finally have "of_int m \<le> x / u" by simp
  then have "m \<le> \<lfloor>x / u\<rfloor>" by (simp add: le_floor_iff)
  with round_half_even_ge_floor [of "x / u"] have "m \<le> round_half_even (x / u)" by simp
  then have "(of_int m :: rat) * u \<le> of_int (round_half_even (x / u)) * u"
    using u by (intro mult_right_mono) auto
  moreover have "of_int m * u = of_int n / 2"
    using inv u by (simp add: m_def field_simps)
  moreover have "fl x = of_int (round_half_even (x / u)) * u"
    using assms(1) by (simp add: fl_def Let_def u_def e_def)
  ultimately show ?thesis by simp
qed


lemma Math_round_0: "Math_round 0 = 0"
  unfolding Math_round_def by (intro floor_unique) auto

lemma Math_round_fl:
  assumes "x \<noteq> 0" and "\<bar>x\<bar> < 2 powi (b + 1)" and "b \<le> 51"
    and "of_int k - 1 / 2 \<le> x" and "x + 2 powi (b - 53) < of_int k + 1 / 2"
  shows "Math_round (fl x) = k"
proof -
  from binexp_less [OF assms(1,2)] have e: "binexp x \<le> b" by simp
  have "of_int (2 * k - 1) / 2 \<le> x" using assms(4) by (simp add: field_simps)
  with assms(1,3) e have "of_int (2 * k - 1) / 2 \<le> fl x"
    by (intro fl_ge_half_integer) auto
  then have lo: "of_int k \<le> fl x + 1 / 2" by (simp add: field_simps)
  have "fl x - x \<le> 2 powi (binexp x - 53)"
    using fl_error [OF assms(1)] by simp
  also have "\<dots> \<le> 2 powi (b - 53)"
    using e by (intro power_int_increasing) auto
  finally have "fl x + 1 / 2 < of_int k + 1" using assms(5) by simp
  with lo show ?thesis
    unfolding Math_round_def by (intro floor_unique) auto
qed

lemma Math_round_div_100:
  assumes "\<bar>x\<bar> < 2 ^ 52"
  shows "Math_round (js_div (ToNumber x) 100) = (x + 50) div 100"
proof (cases "x = 0")
  case True
  then show ?thesis
    by (simp add: js_div_def ToNumber_def fl_def Math_round_0)
next
  case False
  define k where "k = (x + 50) div 100"
  have k: "100 * k \<le> x + 50" "x + 50 < 100 * k + 100"
    unfolding k_def by (simp_all add: algebra_simps)
  have n: "ToNumber x = of_int x" using assms by (intro ToNumber_exact) simp
  define y :: rat where "y = of_int x / 100"
  have y0: "y \<noteq> 0" using False by (simp add: y_def)
  have "\<bar>y\<bar> * 100 = of_int \<bar>x\<bar>" by (simp add: y_def)
  also have "\<dots> < 2 ^ 52" using assms by (metis of_int_less_numeral_power_cancel_iff)
  finally have "\<bar>y\<bar> < 2 ^ 46" by simp
  then have b: "\<bar>y\<bar> < 2 powi (45 + 1)" by simp
  have lo: "of_int k - 1 / 2 \<le> y"
  proof -
    from k(1) have "(of_int (100 * k) :: rat) \<le> of_int (x + 50)" by (simp only: of_int_le_iff)
    then show ?thesis by (simp add: y_def field_simps)
  qed
  have hi: "y + 2 powi (45 - 53) < of_int k + 1 / 2"
  proof -
    from k(2) have "x + 51 \<le> 100 * k + 100" by simp
    then have "(of_int (x + 51) :: rat) \<le> of_int (100 * k + 100)" by (simp only: of_int_le_iff)
    then have "y \<le> of_int k + 49 / 100" by (simp add: y_def field_simps)
    moreover have "(2::rat) powi (45 - 53) = 1 / 256" by (simp add: power_int_minus_divide)
    ultimately show ?thesis by simp
  qed
  from Math_round_fl [OF y0 b _ lo hi] show ?thesis
    by (simp add: js_div_def n y_def k_def)
qed

lemma lit_0_8333_value: "lit_0_8333 = 7505699138975669 / 2 ^ 53"
  by code_simp

lemma lit_0_0005_value: "lit_0_0005 = 4611686018427388 / 2 ^ 63"
  by code_simp

lemma Math_round_times_8333:
  assumes "0 \<le> n" "n < 2 ^ 36"
  shows "Math_round (js_mul (of_int n) lit_0_8333) = (8333 * n + 5000) div 10000"
proof (cases "n = 0")
  case True
  then show ?thesis
    by (simp add: js_mul_def fl_def Math_round_0)
next
  case False
  with assms have n1: "1 \<le> n" by simp
  define k where "k = (8333 * n + 5000) div 10000"
  have k: "10000 * k \<le> 8333 * n + 5000" "8333 * n + 5000 < 10000 * k + 10000"
    unfolding k_def by (simp_all add: algebra_simps)
  define c :: rat where "c = 7505699138975669 / 2 ^ 53"
  define y :: rat where "y = of_int n * c"
  have c: "8333 / 10000 \<le> c" "c \<le> 8333 / 10000 + 1 / 2 ^ 54" "c < 1"
    by (simp_all add: c_def)
  have nr: "(1::rat) \<le> of_int n" "(of_int n :: rat) < 2 ^ 36"
    using n1 assms(2) by (simp, metis of_int_less_numeral_power_cancel_iff)
  have y0: "y \<noteq> 0" using nr by (simp add: y_def c_def)
  have ypos: "0 \<le> y" using nr by (simp add: y_def c_def)
  have "y < of_int n * 1" unfolding y_def using nr c(3) by (intro mult_strict_left_mono) auto
  with nr(2) ypos have b: "\<bar>y\<bar> < 2 powi (35 + 1)" by simp
  have lo: "of_int k - 1 / 2 \<le> y"
  proof -
    from k(1) have "(of_int (10000 * k) :: rat) \<le> of_int (8333 * n + 5000)"
      by (simp only: of_int_le_iff)
    then have "of_int k - 1 / 2 \<le> (of_int n :: rat) * (8333 / 10000)" by (simp add: field_simps)
    also have "\<dots> \<le> y" unfolding y_def using nr c(1) by (intro mult_left_mono) auto
    finally show ?thesis .
  qed
  have hi: "y + 2 powi (35 - 53) < of_int k + 1 / 2"
  proof -
    from k(2) have "8333 * n + 5001 \<le> 10000 * k + 10000" by simp
    then have "(of_int (8333 * n + 5001) :: rat) \<le> of_int (10000 * k + 10000)"
      by (simp only: of_int_le_iff)
    then have a: "(of_int n :: rat) * (8333 / 10000) \<le> of_int k + 4999 / 10000" by (simp add: field_simps)
    have "y \<le> of_int n * (8333 / 10000 + 1 / 2 ^ 54)"
      unfolding y_def using nr c(2) by (intro mult_left_mono) auto
    also have "\<dots> = of_int n * (8333 / 10000) + of_int n * (1 / 2 ^ 54)"
      by (simp add: algebra_simps)
    also have "of_int n * (1 / 2 ^ 54) \<le> (2 ^ 36 :: rat) * (1 / 2 ^ 54)"
      using nr by (intro mult_right_mono) auto
    finally have "y \<le> of_int k + 4999 / 10000 + 2 ^ 36 * (1 / 2 ^ 54)" using a by simp
    moreover have "(2::rat) powi (35 - 53) = 1 / 2 ^ 18" by (simp add: power_int_minus_divide)
    ultimately show ?thesis by simp
  qed
  from Math_round_fl [OF y0 b _ lo hi] show ?thesis
    by (simp add: js_mul_def lit_0_8333_value y_def c_def k_def)
qed

lemma Math_round_times_0005:
  assumes "0 \<le> n" "n < 2 ^ 36"
  shows "Math_round (js_mul (of_int n) lit_0_0005) = (5 * n + 5000) div 10000"
proof (cases "n = 0")
  case True
  then show ?thesis
    by (simp add: js_mul_def fl_def Math_round_0)
next
  case False
  with assms have n1: "1 \<le> n" by simp
  define k where "k = (5 * n + 5000) div 10000"
  have k: "10000 * k \<le> 5 * n + 5000" "5 * n + 5000 < 10000 * k + 10000"
    unfolding k_def by (simp_all add: algebra_simps)
  define c :: rat where "c = 4611686018427388 / 2 ^ 63"
  define y :: rat where "y = of_int n * c"
  have c: "5 / 10000 \<le> c" "c \<le> 5 / 10000 + 1 / 2 ^ 54" "c < 1"
    by (simp_all add: c_def)
  have nr: "(1::rat) \<le> of_int n" "(of_int n :: rat) < 2 ^ 36"
    using n1 assms(2) by (simp, metis of_int_less_numeral_power_cancel_iff)
  have y0: "y \<noteq> 0" using nr by (simp add: y_def c_def)
  have ypos: "0 \<le> y" using nr by (simp add: y_def c_def)
  have "y < of_int n * 1" unfolding y_def using nr c(3) by (intro mult_strict_left_mono) auto
  with nr(2) ypos have b: "\<bar>y\<bar> < 2 powi (35 + 1)" by simp
  have lo: "of_int k - 1 / 2 \<le> y"
  proof -
    from k(1) have "(of_int (10000 * k) :: rat) \<le> of_int (5 * n + 5000)"
      by (simp only: of_int_le_iff)
    then have "of_int k - 1 / 2 \<le> (of_int n :: rat) * (5 / 10000)" by (simp add: field_simps)
    also have "\<dots> \<le> y" unfolding y_def using nr c(1) by (intro mult_left_mono) auto
    finally show ?thesis .
  qed
  have hi: "y + 2 powi (35 - 53) < of_int k + 1 / 2"
  proof -
    from k(2) have "5 * (n + 1000) < 5 * (2000 * k + 2000)" by simp
    then have "n + 1000 < 2000 * k + 2000" by (simp only: mult_less_cancel_left_pos)
    then have "5 * n + 5005 \<le> 10000 * k + 10000" by simp
    then have "(of_int (5 * n + 5005) :: rat) \<le> of_int (10000 * k + 10000)"
      by (simp only: of_int_le_iff)
    then have a: "(of_int n :: rat) * (5 / 10000) \<le> of_int k + 4995 / 10000" by (simp add: field_simps)
    have "y \<le> of_int n * (5 / 10000 + 1 / 2 ^ 54)"
      unfolding y_def using nr c(2) by (intro mult_left_mono) auto
    also have "\<dots> = of_int n * (5 / 10000) + of_int n * (1 / 2 ^ 54)"
      by (simp add: algebra_simps)
    also have "of_int n * (1 / 2 ^ 54) \<le> (2 ^ 36 :: rat) * (1 / 2 ^ 54)"
      using nr by (intro mult_right_mono) auto
    finally have "y \<le> of_int k + 4995 / 10000 + 2 ^ 36 * (1 / 2 ^ 54)" using a by simp
    moreover have "(2::rat) powi (35 - 53) = 1 / 2 ^ 18" by (simp add: power_int_minus_divide)
    ultimately show ?thesis by simp
  qed
  from Math_round_fl [OF y0 b _ lo hi] show ?thesis
    by (simp add: js_mul_def lit_0_0005_value y_def c_def k_def)
qed

subsection \<open>Strings\<close>

lemma digits_not_Nil: "digits n \<noteq> []"
  by (subst digits.simps) simp

lemma js_String_not_Nil: "js_String n \<noteq> []"
  by (simp add: js_String_def digits_not_Nil)

lemma join_Nil_iff: "(\<forall>x \<in> set xs. x \<noteq> []) \<Longrightarrow> join sep xs = [] \<longleftrightarrow> xs = []"
  by (induction sep xs rule: join.induct) auto

lemma undouble_replace:
  "undouble (concat (map (\<lambda>c. if c = CHR 0x22 then [CHR 0x22, CHR 0x22] else [c]) s)) = s"
proof (induction s)
  case Nil
  show ?case by simp
next
  case (Cons c s)
  show ?case
  proof (cases "c = CHR 0x22")
    case True
    with Cons show ?thesis by simp
  next
    case False
    with Cons show ?thesis
      by (cases "concat (map (\<lambda>c. if c = CHR 0x22 then [CHR 0x22, CHR 0x22] else [c]) s)") auto
  qed
qed

lemma unescapeCSV_escapeCSV: "unescapeCSV (escapeCSV s) = s"
proof (cases "CHR '','' \<in> set s \<or> CHR 0x22 \<in> set s \<or> CHR 0x0A \<in> set s")
  case True
  then show ?thesis
    by (simp add: escapeCSV_def unescapeCSV_def undouble_replace)
next
  case False
  have "\<not> (2 \<le> length s \<and> hd s = CHR 0x22 \<and> last s = CHR 0x22)"
  proof
    assume a: "2 \<le> length s \<and> hd s = CHR 0x22 \<and> last s = CHR 0x22"
    then have "s \<noteq> []" by auto
    then have "hd s \<in> set s" by simp
    with a False show False by simp
  qed
  then have u: "unescapeCSV s = s"
    unfolding unescapeCSV_def by (rule if_not_P)
  from False have "escapeCSV s = s"
    by (simp add: escapeCSV_def)
  with u show ?thesis by simp
qed

subsection \<open>The SQL statements\<close>

lemma set_insert_by [simp]: "set (insert_by le x xs) = insert x (set xs)"
  by (induction xs) auto

lemma set_order_by [simp]: "set (order_by le xs) = set xs"
  by (induction xs) (auto simp: order_by_def)

lemma insert_by_not_Nil [simp]: "insert_by le x xs \<noteq> []"
  by (cases xs) auto

lemma order_by_Nil_iff [simp]: "order_by le xs = [] \<longleftrightarrow> xs = []"
  by (cases xs) (auto simp: order_by_def)

lemma length_insert_by [simp]: "length (insert_by le x xs) = Suc (length xs)"
  by (induction xs) auto

lemma length_order_by [simp]: "length (order_by le xs) = length xs"
  by (induction xs) (auto simp: order_by_def)

lemma distinct_insert_by [simp]: "distinct (insert_by le x xs) \<longleftrightarrow> x \<notin> set xs \<and> distinct xs"
  by (induction xs) auto

lemma order_by_simps:
  "order_by le [] = []"
  "order_by le (x # xs) = insert_by le x (order_by le xs)"
  by (simp_all add: order_by_def)

lemma distinct_order_by [simp]: "distinct (order_by le xs) \<longleftrightarrow> distinct xs"
  by (induction xs) (simp_all add: order_by_simps)

lemma insert_by_map:
  "insert_by le (f x) (map f xs) = map f (insert_by (\<lambda>a b. le (f a) (f b)) x xs)"
  by (induction xs) auto

lemma order_by_map:
  "order_by le (map f xs) = map f (order_by (\<lambda>a b. le (f a) (f b)) xs)"
  by (induction xs) (simp_all add: order_by_simps insert_by_map)

lemma set_joined:
  "set (joined db) = {x. case x of (pre, e, p) \<Rightarrow>
     pre \<in> set (payroll_run_employees db) \<and> e \<in> set (employees db) \<and> p \<in> set (profiles db) \<and>
     e_id e = pre_employee_id pre \<and> p_id p = user_id e}"
  by (auto simp: joined_def)

lemma set_select_pf_employees:
  "set (select_pf_employees db runId tenantId) =
     pf_project ` {x. processed_employee db runId tenantId x}"
  by (auto simp: select_pf_employees_def set_joined processed_employee_def)

lemma set_select_esi_employees:
  "set (select_esi_employees db runId tenantId days) =
     esi_project days ` {x. processed_employee db runId tenantId x \<and> gross_pay_cents (fst x) \<le> 2100000}"
  by (auto simp: select_esi_employees_def set_joined processed_employee_def)

lemma set_select_tds_employees:
  "set (select_tds_employees db runId tenantId) =
     tds_project ` {x. processed_employee db runId tenantId x \<and>
                       0 < coalesce0 (map_of (metadata (fst x)) ''tds_cents'')}"
  by (auto simp: select_tds_employees_def set_joined processed_employee_def)

lemma select_completed_run_Nil_iff:
  "select_completed_run db tenantId month year = [] \<longleftrightarrow>
     \<not> (\<exists>r. completed_run_for db tenantId month year r)"
  by (auto simp: select_completed_run_def completed_run_for_def filter_empty_conv)

lemma select_completed_run_Cons:
  assumes "select_completed_run db tenantId month year = row # rest"
  shows "completed_run_for db tenantId month year row"
proof -
  from assms have "row \<in> set (select_completed_run db tenantId month year)" by simp
  then have "row \<in> set (order_by (\<lambda>a b. date_le (pay_date b) (pay_date a))
       (filter (\<lambda>r. run_tenant_id r = tenantId \<and> d_month (pay_date r) = month \<and>
                     d_year (pay_date r) = year \<and> run_status r = ''completed'')
          (payroll_runs db)))"
    unfolding select_completed_run_def by (rule in_set_takeD)
  then show ?thesis by (simp add: completed_run_for_def)
qed

subsection \<open>Effects\<close>

lemma store_query [simp]: "store (query st w) = store w"
  by (simp add: query_def)

lemma issued_query [simp]: "issued (query st w) = issued w @ [st]"
  by (simp add: query_def)

lemma console_query [simp]: "console (query st w) = console w"
  by (simp add: query_def)

lemma fst_catch_log [simp]: "fst (catch_log label rw) = fst rw"
  by (simp add: catch_log_def split: prod.splits sum.splits)

lemma store_catch_log [simp]: "store (snd (catch_log label rw)) = store (snd rw)"
  by (simp add: catch_log_def split: prod.splits sum.splits)

lemma issued_catch_log [simp]: "issued (snd (catch_log label rw)) = issued (snd rw)"
  by (simp add: catch_log_def split: prod.splits sum.splits)

lemma getPayrollRunForMonth_found:
  "select_completed_run (store w) tenantId month year = row # rest \<Longrightarrow>
   getPayrollRunForMonth tenantId month year w = (Inr row, query SelectCompletedRun w)"
  by (simp add: getPayrollRunForMonth_def Let_def)

lemma getPayrollRunForMonth_none:
  "select_completed_run (store w) tenantId month year = [] \<Longrightarrow>
   getPayrollRunForMonth tenantId month year w =
     (Inl (Error (lookup_message month year (select_run_groups (store w) tenantId))),
      query SelectRunGroups (query SelectCompletedRun w))"
  by (simp add: getPayrollRunForMonth_def Let_def)

lemma generatePFECR_Inr:
  assumes "fst (generatePFECR tenantId month year w) = Inr txt"
  shows "\<exists>run rest org orgs.
           select_completed_run (store w) tenantId month year = run # rest \<and>
           select_organization (store w) tenantId = org # orgs \<and>
           \<not> falsy (pf_code org) \<and>
           select_pf_employees (store w) (run_id run) tenantId \<noteq> [] \<and>
           txt = join newline
                   (pf_header org month year (select_pf_employees (store w) (run_id run) tenantId) #
                    map pf_record (select_pf_employees (store w) (run_id run) tenantId))"
proof (cases "select_completed_run (store w) tenantId month year")
  case Nil
  with assms show ?thesis
    by (simp add: generatePFECR_def getPayrollRunForMonth_none)
next
  case (Cons run rest)
  with assms show ?thesis
    by (simp add: generatePFECR_def getPayrollRunForMonth_found Let_def
             split: list.splits if_splits)
qed


lemma generateESIReturn_Inr:
  assumes "fst (generateESIReturn tenantId month year w) = Inr txt"
  shows "\<exists>run rest.
           select_completed_run (store w) tenantId month year = run # rest \<and>
           select_organization (store w) tenantId \<noteq> [] \<and>
           select_esi_employees (store w) (run_id run) tenantId (js_date_day0_getDate year month) \<noteq> [] \<and>
           txt = join newline
                   (''IP Number,IP Name,Days Worked,Wages'' #
                    map (esi_record (js_date_day0_getDate year month))
                      (select_esi_employees (store w) (run_id run) tenantId
                         (js_date_day0_getDate year month)))"
proof (cases "select_completed_run (store w) tenantId month year")
  case Nil
  with assms show ?thesis
    by (simp add: generateESIReturn_def getPayrollRunForMonth_none)
next
  case (Cons run rest)
  with assms show ?thesis
    by (auto simp add: generateESIReturn_def getPayrollRunForMonth_found Let_def
             split: list.splits if_splits)
qed

lemmas store_defs = example_store_def march_run_def february_run_def run_paid_def on_day_def
  org_with_def processed_def initial_def

lemmas sql_defs = select_completed_run_def select_run_groups_def run_groups_def
  select_organization_def select_pf_employees_def select_esi_employees_def
  select_tds_employees_def joined_def pf_project_def esi_project_def tds_project_def
  employee_name_def coalesce0_def order_by_def date_le_def

lemmas js_defs = getPayrollRunForMonth_def generatePFECR_def generateESIReturn_def
  generateTDSSummary_def catch_log_def query_def pf_header_def pf_record_def
  pf_record_fields_def esi_record_def esi_record_fields_def escapeCSV_def
  lookup_message_def month_year_def or_empty_def falsy_def newline_def padStart_def
  trim_def toUpperCase_def upper_char_def is_space_def tds_initial_def tds_add_employee_def
  update_entry_def js_String_def digits.simps digit_char_def js_date_day0_getDate_def month_length_def
  leap_year_def Let_def

section \<open>The claims\<close>

subsection \<open>Evaluating the examples\<close>

lemma round_2100000: "Math_round (js_div (ToNumber 2100000) 100) = 21000"
  by code_simp

subsection \<open>The ESI return\<close>

lemma esi_boundary_text:
  "fst (generateESIReturn 7 3 2024 esi_boundary) =
     Inr (''IP Number,IP Name,Days Worked,Wages'' @ [CHR 0x0A] @
          [CHR ''E'', CHR ''1'', CHR '','', CHR 0x22] @ ''Doe, John'' @ [CHR 0x22] @ '',31,21000'')"
  by (simp add: esi_boundary_def store_defs sql_defs js_defs round_2100000)

text \<open>
  C5. In the ESI return, a processed employee of the run is a row exactly when the gross pay
  is at most 2,100,000 minor units, and every row is such an employee.
\<close>

theorem esi_eligibility:
  assumes "fst (generateESIReturn tenantId month year w) = Inr txt"
  shows "\<exists>payrollRun rows.
           fst (getPayrollRunForMonth tenantId month year w) = Inr payrollRun \<and>
           txt = join newline
                   (''IP Number,IP Name,Days Worked,Wages'' #
                    map (esi_record (js_date_day0_getDate year month)) rows) \<and>
           (\<forall>x. processed_employee (store w) (run_id payrollRun) tenantId x \<longrightarrow>
                  (esi_project (js_date_day0_getDate year month) x \<in> set rows
                     \<longleftrightarrow> gross_pay_cents (fst x) \<le> 2100000)) \<and>
           (\<forall>r \<in> set rows. \<exists>x. processed_employee (store w) (run_id payrollRun) tenantId x \<and>
                  r = esi_project (js_date_day0_getDate year month) x)"
proof -
  from generateESIReturn_Inr [OF assms] obtain run rest where
    run: "select_completed_run (store w) tenantId month year = run # rest" and
    out: "txt = join newline
                   (''IP Number,IP Name,Days Worked,Wages'' #
                    map (esi_record (js_date_day0_getDate year month))
                      (select_esi_employees (store w) (run_id run) tenantId
                         (js_date_day0_getDate year month)))"
    by blast
  let ?d = "js_date_day0_getDate year month"
  let ?rows = "select_esi_employees (store w) (run_id run) tenantId ?d"
  have a: "fst (getPayrollRunForMonth tenantId month year w) = Inr run"
    by (simp add: getPayrollRunForMonth_found [OF run])
  have b: "esi_project ?d x \<in> set ?rows \<longleftrightarrow> gross_pay_cents (fst x) \<le> 2100000"
    if "processed_employee (store w) (run_id run) tenantId x" for x
  proof
    assume "esi_project ?d x \<in> set ?rows"
    then obtain x' where x': "gross_pay_cents (fst x') \<le> 2100000"
        and eq: "esi_project ?d x = esi_project ?d x'"
      by (auto simp: set_select_esi_employees)
    from eq have "gross_pay_cents (fst x) = gross_pay_cents (fst x')"
      by (cases x; cases x') (simp add: esi_project_def)
    with x' show "gross_pay_cents (fst x) \<le> 2100000" by simp
  next
    assume "gross_pay_cents (fst x) \<le> 2100000"
    with that show "esi_project ?d x \<in> set ?rows"
      by (auto simp: set_select_esi_employees)
  qed
  have c: "\<forall>r \<in> set ?rows. \<exists>x. processed_employee (store w) (run_id run) tenantId x \<and>
                  r = esi_project ?d x"
    by (auto simp: set_select_esi_employees)
  from a out b c show ?thesis by blast
qed

theorem esi_eligibility_witness:
  "fst (generateESIReturn 7 3 2024 esi_boundary) =
     Inr (''IP Number,IP Name,Days Worked,Wages'' @ [CHR 0x0A] @
          [CHR ''E'', CHR ''1'', CHR '','', CHR 0x22] @ ''Doe, John'' @ [CHR 0x22] @ '',31,21000'') \<and>
   (\<exists>payrollRun rows.
       fst (getPayrollRunForMonth 7 3 2024 esi_boundary) = Inr payrollRun \<and>
       ''IP Number,IP Name,Days Worked,Wages'' @ [CHR 0x0A] @
          [CHR ''E'', CHR ''1'', CHR '','', CHR 0x22] @ ''Doe, John'' @ [CHR 0x22] @ '',31,21000'' =
         join newline (''IP Number,IP Name,Days Worked,Wages'' #
                       map (esi_record (js_date_day0_getDate 2024 3)) rows) \<and>
       (\<forall>x. processed_employee (store esi_boundary) (run_id payrollRun) 7 x \<longrightarrow>
              (esi_project (js_date_day0_getDate 2024 3) x \<in> set rows
                 \<longleftrightarrow> gross_pay_cents (fst x) \<le> 2100000)) \<and>
       (\<forall>r \<in> set rows. \<exists>x. processed_employee (store esi_boundary) (run_id payrollRun) 7 x \<and>
              r = esi_project (js_date_day0_getDate 2024 3) x))"
  using esi_eligibility [OF esi_boundary_text] esi_boundary_text by simp

text \<open>
  C6. \<open>escapeCSV\<close> encloses a field in double quotes, with every double quote of the field
  doubled, exactly when the field holds a comma, a double quote or a newline, and leaves any
  other field as it is; reading the escaped field back gives the field.
\<close>

theorem escapeCSV_round_trip:
  "(CHR '','' \<in> set s \<or> CHR 0x22 \<in> set s \<or> CHR 0x0A \<in> set s \<longrightarrow>
      escapeCSV s =
        [CHR 0x22] @ concat (map (\<lambda>c. if c = CHR 0x22 then [CHR 0x22, CHR 0x22] else [c]) s) @
        [CHR 0x22]) \<and>
   (\<not> (CHR '','' \<in> set s \<or> CHR 0x22 \<in> set s \<or> CHR 0x0A \<in> set s) \<longrightarrow> escapeCSV s = s) \<and>
   unescapeCSV (escapeCSV s) = s"
  by (simp add: unescapeCSV_escapeCSV) (simp add: escapeCSV_def)

theorem escapeCSV_round_trip_witness:
  "escapeCSV ''Doe, John'' = [CHR 0x22] @ ''Doe, John'' @ [CHR 0x22] \<and>
   unescapeCSV ([CHR 0x22] @ ''Doe, John'' @ [CHR 0x22]) = ''Doe, John''"
  using escapeCSV_round_trip [of "''Doe, John''"] by auto

lemma getDate_calendar_days:
  assumes "1 \<le> year" "1 \<le> month" "month \<le> 12"
  shows "js_date_day0_getDate year month = calendar_days year month"
proof -
  have d: "(month - 1) div 12 = 0" and m: "(month - 1) mod 12 = month - 1"
    using assms by simp_all
  have l: "leap_year (1900 + year) = leap_year year" if "year \<le> 99"
    using that assms(1) unfolding leap_year_def by presburger
  have "month_length (if 0 \<le> year \<and> year \<le> 99 then 1900 + year else year) (month - 1) =
        calendar_days year month"
    using assms l by (auto simp: month_length_def calendar_days_def)
  then show ?thesis
    by (simp add: js_date_day0_getDate_def Let_def d m)
qed

lemma calendar_days_range: "calendar_days year month \<in> {28, 29, 30, 31}"
  by (simp add: calendar_days_def)

lemma calendar_days_29: "calendar_days year month = 29 \<longleftrightarrow> month = 2 \<and> leap_year year"
  by (simp add: calendar_days_def)

lemma escapeCSV_calendar_days:
  "escapeCSV (js_String (calendar_days year month)) = js_String (calendar_days year month)"
proof -
  have "escapeCSV (js_String 28) = js_String 28" "escapeCSV (js_String 29) = js_String 29"
       "escapeCSV (js_String 30) = js_String 30" "escapeCSV (js_String 31) = js_String 31"
    by (simp_all add: escapeCSV_def js_String_def digits.simps digit_char_def)
  with calendar_days_range [of year month] show ?thesis
    by (elim insertE emptyE) simp_all
qed

lemma calendar_days_not_zero: "calendar_days year month \<noteq> 0"
  using calendar_days_range [of year month] by auto

lemma esi_february_text:
  "fst (generateESIReturn 7 2 2024 esi_february) =
     Inr (''IP Number,IP Name,Days Worked,Wages'' @ [CHR 0x0A] @
          [CHR ''E'', CHR ''1'', CHR '','', CHR 0x22] @ ''Doe, John'' @ [CHR 0x22] @ '',29,21000'')"
  by (simp add: esi_february_def store_defs sql_defs js_defs round_2100000)

lemma esi_february_valid:
  "\<forall>r \<in> set (payroll_runs (store esi_february)). valid_date (pay_date r)"
  by (simp add: esi_february_def store_defs valid_date_def calendar_days_def leap_year_def)

text \<open>
  C8. In the ESI return, Days Worked of every row is the number of days of the requested month
  of the requested year in the calendar (28 to 31, 29 in the February of a leap year),
  whatever the store holds about the employee. The pay dates of the store are dates of the
  calendar.
\<close>

theorem esi_days_worked:
  assumes "fst (generateESIReturn tenantId month year w) = Inr txt"
    and "\<forall>r \<in> set (payroll_runs (store w)). valid_date (pay_date r)"
  shows "\<exists>payrollRun rows.
           fst (getPayrollRunForMonth tenantId month year w) = Inr payrollRun \<and>
           rows = select_esi_employees (store w) (run_id payrollRun) tenantId
                    (calendar_days year month) \<and>
           txt = join newline
                   (''IP Number,IP Name,Days Worked,Wages'' #
                    map (esi_record (calendar_days year month)) rows) \<and>
           (\<forall>emp \<in> set rows.
              esi_record_fields (calendar_days year month) emp ! 2 =
                js_String (calendar_days year month)) \<and>
           calendar_days year month \<in> {28, 29, 30, 31} \<and>
           (calendar_days year month = 29 \<longleftrightarrow> month = 2 \<and> leap_year year)"
proof -
  from generateESIReturn_Inr [OF assms(1)] obtain run rest where
    run: "select_completed_run (store w) tenantId month year = run # rest" and
    out: "txt = join newline
                   (''IP Number,IP Name,Days Worked,Wages'' #
                    map (esi_record (js_date_day0_getDate year month))
                      (select_esi_employees (store w) (run_id run) tenantId
                         (js_date_day0_getDate year month)))"
    by blast
  from select_completed_run_Cons [OF run] assms(2)
  have "valid_date (pay_date run)" "d_month (pay_date run) = month" "d_year (pay_date run) = year"
    by (auto simp: completed_run_for_def)
  then have "1 \<le> year" "1 \<le> month" "month \<le> 12"
    by (auto simp: valid_date_def)
  then have d: "js_date_day0_getDate year month = calendar_days year month"
    by (rule getDate_calendar_days)
  let ?d = "calendar_days year month"
  let ?rows = "select_esi_employees (store w) (run_id run) tenantId ?d"
  have a: "fst (getPayrollRunForMonth tenantId month year w) = Inr run"
    by (simp add: getPayrollRunForMonth_found [OF run])
  have b: "esi_record_fields ?d emp ! 2 = js_String ?d" if "emp \<in> set ?rows" for emp
  proof -
    from that have "er_days_worked emp = ?d"
      by (auto simp: set_select_esi_employees esi_project_def)
    then show ?thesis
      by (simp add: esi_record_fields_def Let_def calendar_days_not_zero escapeCSV_calendar_days)
  qed
  from a b out d calendar_days_range [of year month] calendar_days_29 [of year month]
  show ?thesis by simp
qed

theorem esi_days_worked_witness:
  "fst (generateESIReturn 7 2 2024 esi_february) =
     Inr (''IP Number,IP Name,Days Worked,Wages'' @ [CHR 0x0A] @
          [CHR ''E'', CHR ''1'', CHR '','', CHR 0x22] @ ''Doe, John'' @ [CHR 0x22] @ '',29,21000'') \<and>
   (\<exists>payrollRun rows.
       fst (getPayrollRunForMonth 7 2 2024 esi_february) = Inr payrollRun \<and>
       rows = select_esi_employees (store esi_february) (run_id payrollRun) 7 29 \<and>
       (\<forall>emp \<in> set rows. esi_record_fields 29 emp ! 2 = ''29''))"
proof -
  have c: "calendar_days 2024 2 = 29"
    by (simp add: calendar_days_def leap_year_def)
  have s: "js_String 29 = ''29''"
    by (simp add: js_String_def digits.simps digit_char_def)
  from esi_days_worked [OF esi_february_text esi_february_valid] esi_february_text
  show ?thesis by (auto simp: c s)
qed

lemma esi_record_project:
  "esi_record days (esi_project days (pre, e, p)) =
     join '','' [escapeCSV (ip_number e), escapeCSV (trim (employee_name p)),
               escapeCSV (js_String days),
               escapeCSV (js_String (Math_round (js_div (ToNumber (gross_pay_cents pre)) 100)))]"
  by (simp add: esi_record_def esi_record_fields_def esi_project_def Let_def ip_number_def
        falsy_def or_empty_def split: option.splits)

lemma select_esi_employees_as_map:
  "\<exists>xs. select_esi_employees db runId tenantId days = map (esi_project days) xs \<and>
        set xs = {x. processed_employee db runId tenantId x \<and> gross_pay_cents (fst x) \<le> 2100000}"
proof -
  let ?xs = "order_by (\<lambda>a b. text_le (er_employee_id (esi_project days a))
                                    (er_employee_id (esi_project days b)))
               (filter (\<lambda>(pre, e, p). payroll_run_id pre = runId \<and> pre_status pre = ''processed'' \<and>
                                       e_tenant_id e = tenantId \<and> gross_pay_cents pre \<le> 2100000)
                  (joined db))"
  have "select_esi_employees db runId tenantId days = map (esi_project days) ?xs"
    by (simp add: select_esi_employees_def order_by_map)
  moreover have "set ?xs = {x. processed_employee db runId tenantId x \<and>
                               gross_pay_cents (fst x) \<le> 2100000}"
    by (auto simp: set_joined processed_employee_def)
  ultimately show ?thesis by blast
qed

lemma esi_two_text:
  "fst (generateESIReturn 7 3 2024 esi_two) =
     Inr (''IP Number,IP Name,Days Worked,Wages'' @ [CHR 0x0A] @
          [CHR ''E'', CHR ''1'', CHR '','', CHR 0x22] @ ''Doe, John'' @ [CHR 0x22] @ '',31,21000'' @
          [CHR 0x0A] @ ''3100000001,Asha,31,9000'')"
proof -
  have "Math_round (js_div (ToNumber 900000) 100) = 9000" by code_simp
  then show ?thesis
    by (simp add: esi_two_def store_defs sql_defs js_defs round_2100000)
qed

text \<open>
  C10. The result of \<open>generateESIReturn\<close> does not depend on the \<open>esi_code\<close> of any
  organization. The text it returns is the header row followed by one row for each processed
  employee of the run within the ceiling, whose IP Number is the employee's own
  \<open>esi_number\<close>, or else the \<open>employee_id\<close>, or else empty.
\<close>

theorem esi_code_unused:
  "fst (generateESIReturn tenantId month year
          (w\<lparr>store := (store w)\<lparr>organizations :=
                map (\<lambda>org. org\<lparr>esi_code := code org\<rparr>) (organizations (store w))\<rparr>\<rparr>)) =
   fst (generateESIReturn tenantId month year w) \<and>
   (fst (generateESIReturn tenantId month year w) = Inr csv \<longrightarrow>
      (\<exists>payrollRun xs.
          fst (getPayrollRunForMonth tenantId month year w) = Inr payrollRun \<and>
          set xs = {x. processed_employee (store w) (run_id payrollRun) tenantId x \<and>
                       gross_pay_cents (fst x) \<le> 2100000} \<and>
          csv = join newline
                  (''IP Number,IP Name,Days Worked,Wages'' #
                   map (\<lambda>(pre, e, p).
                          join '',''
                            [escapeCSV (ip_number e),
                             escapeCSV (trim (employee_name p)),
                             escapeCSV (js_String (js_date_day0_getDate year month)),
                             escapeCSV (js_String
                               (Math_round (js_div (ToNumber (gross_pay_cents pre)) 100)))])
                     xs)))"
proof -
  let ?db = "store w"
  let ?db' = "?db\<lparr>organizations := map (\<lambda>org. org\<lparr>esi_code := code org\<rparr>) (organizations ?db)\<rparr>"
  let ?w' = "w\<lparr>store := ?db'\<rparr>"
  have r: "select_completed_run ?db' tenantId month year = select_completed_run ?db tenantId month year"
    by (simp add: select_completed_run_def)
  have g: "select_run_groups ?db' tenantId = select_run_groups ?db tenantId"
    by (simp add: select_run_groups_def run_groups_def)
  have o: "select_organization ?db' tenantId = [] \<longleftrightarrow> select_organization ?db tenantId = []"
    by (simp add: select_organization_def filter_empty_conv)
  have e: "select_esi_employees ?db' runId tenantId d = select_esi_employees ?db runId tenantId d"
    for runId d
    by (simp add: select_esi_employees_def joined_def cong: if_cong)
  have same: "fst (generateESIReturn tenantId month year ?w') = fst (generateESIReturn tenantId month year w)"
  proof (cases "select_completed_run ?db tenantId month year")
    case Nil
    then show ?thesis
      by (simp add: generateESIReturn_def getPayrollRunForMonth_def Let_def r g)
  next
    case (Cons run rest)
    show ?thesis
    proof (cases "select_organization ?db tenantId = []")
      case True
      with Cons o show ?thesis
        by (simp add: generateESIReturn_def getPayrollRunForMonth_def Let_def r)
    next
      case False
      with o have "select_organization ?db' tenantId \<noteq> []" by simp
      with False Cons show ?thesis
        by (simp add: generateESIReturn_def getPayrollRunForMonth_def Let_def r e
                 split: list.splits)
    qed
  qed
  have rows: "\<exists>payrollRun xs.
          fst (getPayrollRunForMonth tenantId month year w) = Inr payrollRun \<and>
          set xs = {x. processed_employee (store w) (run_id payrollRun) tenantId x \<and>
                       gross_pay_cents (fst x) \<le> 2100000} \<and>
          csv = join newline
                  (''IP Number,IP Name,Days Worked,Wages'' #
                   map (\<lambda>(pre, e, p).
                          join '',''
                            [escapeCSV (ip_number e),
                             escapeCSV (trim (employee_name p)),
                             escapeCSV (js_String (js_date_day0_getDate year month)),
                             escapeCSV (js_String
                               (Math_round (js_div (ToNumber (gross_pay_cents pre)) 100)))])
                     xs)"
    if ok: "fst (generateESIReturn tenantId month year w) = Inr csv"
  proof -
    let ?d = "js_date_day0_getDate year month"
    from generateESIReturn_Inr [OF ok] obtain run rest where
      run: "select_completed_run (store w) tenantId month year = run # rest" and
      out: "csv = join newline
                   (''IP Number,IP Name,Days Worked,Wages'' #
                    map (esi_record ?d) (select_esi_employees (store w) (run_id run) tenantId ?d))"
      by blast
    from select_esi_employees_as_map [of "store w" "run_id run" tenantId ?d] obtain xs where
      xs: "select_esi_employees (store w) (run_id run) tenantId ?d = map (esi_project ?d) xs"
        "set xs = {x. processed_employee (store w) (run_id run) tenantId x \<and>
                      gross_pay_cents (fst x) \<le> 2100000}"
      by blast
    have line: "esi_record ?d (esi_project ?d x) =
             (\<lambda>(pre, e, p).
                    join '',''
                      [escapeCSV (ip_number e),
                       escapeCSV (trim (employee_name p)),
                       escapeCSV (js_String ?d),
                       escapeCSV (js_String
                         (Math_round (js_div (ToNumber (gross_pay_cents pre)) 100)))]) x" for x
      by (cases x) (simp only: esi_record_project prod.case)
    have l: "map (esi_record ?d) (map (esi_project ?d) xs) =
             map (\<lambda>(pre, e, p).
                    join '',''
                      [escapeCSV (ip_number e),
                       escapeCSV (trim (employee_name p)),
                       escapeCSV (js_String ?d),
                       escapeCSV (js_String
                         (Math_round (js_div (ToNumber (gross_pay_cents pre)) 100)))]) xs"
      by (simp only: map_map o_def line)
    have a: "fst (getPayrollRunForMonth tenantId month year w) = Inr run"
      by (simp add: getPayrollRunForMonth_found [OF run])
    from out have "csv = join newline
                   (''IP Number,IP Name,Days Worked,Wages'' #
                    map (\<lambda>(pre, e, p).
                    join '',''
                      [escapeCSV (ip_number e),
                       escapeCSV (trim (employee_name p)),
                       escapeCSV (js_String ?d),
                       escapeCSV (js_String
                         (Math_round (js_div (ToNumber (gross_pay_cents pre)) 100)))]) xs)"
      by (simp only: xs(1) l)
    with a xs(2) show ?thesis by (intro exI conjI)
  qed
  from same rows show ?thesis by blast
qed

theorem esi_code_unused_witness:
  "fst (generateESIReturn 7 3 2024
          (esi_two\<lparr>store := (store esi_two)\<lparr>organizations :=
                map (\<lambda>org. org\<lparr>esi_code := Some ''31000123450000001''\<rparr>)
                  (organizations (store esi_two))\<rparr>\<rparr>)) =
     Inr (''IP Number,IP Name,Days Worked,Wages'' @ [CHR 0x0A] @
          [CHR ''E'', CHR ''1'', CHR '','', CHR 0x22] @ ''Doe, John'' @ [CHR 0x22] @ '',31,21000'' @
          [CHR 0x0A] @ ''3100000001,Asha,31,9000'') \<and>
   (\<exists>payrollRun xs.
       fst (getPayrollRunForMonth 7 3 2024 esi_two) = Inr payrollRun \<and>
       set xs = {x. processed_employee (store esi_two) (run_id payrollRun) 7 x \<and>
                    gross_pay_cents (fst x) \<le> 2100000} \<and>
       ''IP Number,IP Name,Days Worked,Wages'' @ [CHR 0x0A] @
          [CHR ''E'', CHR ''1'', CHR '','', CHR 0x22] @ ''Doe, John'' @ [CHR 0x22] @ '',31,21000'' @
          [CHR 0x0A] @ ''3100000001,Asha,31,9000'' =
         join newline
           (''IP Number,IP Name,Days Worked,Wages'' #
            map (\<lambda>(pre, e, p).
                   join '',''
                     [escapeCSV (ip_number e),
                      escapeCSV (trim (employee_name p)),
                      escapeCSV (js_String (js_date_day0_getDate 2024 3)),
                      escapeCSV (js_String
                        (Math_round (js_div (ToNumber (gross_pay_cents pre)) 100)))])
              xs))"
  using esi_code_unused [where tenantId = 7 and month = 3 and year = 2024 and w = esi_two
          and code = "\<lambda>org. Some ''31000123450000001''" and csv =
          "''IP Number,IP Name,Days Worked,Wages'' @ [CHR 0x0A] @
          [CHR ''E'', CHR ''1'', CHR '','', CHR 0x22] @ ''Doe, John'' @ [CHR 0x22] @ '',31,21000'' @
          [CHR 0x0A] @ ''3100000001,Asha,31,9000''"]
    esi_two_text
  by simp

subsection \<open>The TDS summary\<close>

lemma generateTDSSummary_ok:
  assumes "select_completed_run (store w) tenantId month year = run # rest"
    and "select_organization (store w) tenantId = org # orgs"
  shows "fst (generateTDSSummary tenantId month year w) =
           Inr (foldl tds_add_employee
                  (tds_initial org month year run
                     (select_tds_employees (store w) (run_id run) tenantId))
                  (select_tds_employees (store w) (run_id run) tenantId))"
  using assms by (simp add: generateTDSSummary_def getPayrollRunForMonth_found Let_def)

lemma generateTDSSummary_Inr:
  assumes "fst (generateTDSSummary tenantId month year w) = Inr s"
  shows "\<exists>run rest org orgs.
           select_completed_run (store w) tenantId month year = run # rest \<and>
           select_organization (store w) tenantId = org # orgs \<and>
           s = foldl tds_add_employee
                 (tds_initial org month year run
                    (select_tds_employees (store w) (run_id run) tenantId))
                 (select_tds_employees (store w) (run_id run) tenantId)"
proof (cases "select_completed_run (store w) tenantId month year")
  case Nil
  with assms show ?thesis
    by (simp add: generateTDSSummary_def getPayrollRunForMonth_none)
next
  case (Cons run rest)
  with assms show ?thesis
    by (auto simp add: generateTDSSummary_def getPayrollRunForMonth_found Let_def
             split: list.splits)
qed

lemma getPayrollRunForMonth_Inr:
  assumes "fst (getPayrollRunForMonth tenantId month year w) = Inr run"
  shows "\<exists>rest. select_completed_run (store w) tenantId month year = run # rest"
  using assms by (auto simp: getPayrollRunForMonth_def Let_def split: list.splits)

lemma tds_fold_consistent:
  assumes "by_section s = [(''192B'', sec)]"
    and "total_tds s = s_total_amount sec"
    and "s_total_amount sec =
           foldl (\<lambda>a r. js_add a (of_int (te_tds_deducted r))) 0 (summary_employees s)"
    and "s_employee_count sec = length (summary_employees s)"
    and "s_employees sec = summary_employees s"
    and "\<forall>r \<in> set (summary_employees s). te_section r = ''192B''"
  shows "\<exists>sec'. by_section (foldl tds_add_employee s rows) = [(''192B'', sec')] \<and>
           total_tds (foldl tds_add_employee s rows) = s_total_amount sec' \<and>
           s_total_amount sec' =
             foldl (\<lambda>a r. js_add a (of_int (te_tds_deducted r))) 0
               (summary_employees (foldl tds_add_employee s rows)) \<and>
           s_employee_count sec' = length (summary_employees (foldl tds_add_employee s rows)) \<and>
           s_employees sec' = summary_employees (foldl tds_add_employee s rows) \<and>
           (\<forall>r \<in> set (summary_employees (foldl tds_add_employee s rows)). te_section r = ''192B'') \<and>
           length (summary_employees (foldl tds_add_employee s rows)) =
             length (summary_employees s) + length rows \<and>
           total_employees (foldl tds_add_employee s rows) = total_employees s"
  using assms
proof (induction rows arbitrary: s sec)
  case Nil
  then show ?case by simp
next
  case (Cons emp rows)
  let ?s = "tds_add_employee s emp"
  obtain sec1 where sec1: "by_section ?s = [(''192B'', sec1)]"
    "total_tds ?s = s_total_amount sec1"
    "s_total_amount sec1 =
       foldl (\<lambda>a r. js_add a (of_int (te_tds_deducted r))) 0 (summary_employees ?s)"
    "s_employee_count sec1 = length (summary_employees ?s)"
    "s_employees sec1 = summary_employees ?s"
    "\<forall>r \<in> set (summary_employees ?s). te_section r = ''192B''"
    using Cons.prems by (simp add: tds_add_employee_def update_entry_def Let_def)
  have l: "length (summary_employees ?s) = Suc (length (summary_employees s))"
    and t: "total_employees ?s = total_employees s"
    by (simp_all add: tds_add_employee_def Let_def)
  from Cons.IH [OF sec1] l t show ?case by simp
qed

lemma tds_deducted_nonneg:
  assumes "fst (generateTDSSummary tenantId month year w) = Inr s"
  shows "\<forall>r \<in> set (summary_employees s). 0 \<le> te_tds_deducted r"
proof -
  have step: "\<forall>r \<in> set (summary_employees (foldl tds_add_employee s0 rows)). 0 \<le> te_tds_deducted r"
    if "\<forall>r \<in> set (summary_employees s0). 0 \<le> te_tds_deducted r"
       "\<forall>emp \<in> set rows. 0 < tr_tds_cents emp" for s0 rows
    using that
  proof (induction rows arbitrary: s0)
    case Nil
    then show ?case by simp
  next
    case (Cons emp rows)
    from Cons.prems(2) have "0 \<le> js_div (ToNumber (tr_tds_cents emp)) 100"
      by (simp add: js_div_def ToNumber_def fl_nonneg)
    then have "0 \<le> Math_round (js_div (ToNumber (tr_tds_cents emp)) 100)"
      by (simp add: Math_round_def)
    with Cons.prems have "\<forall>r \<in> set (summary_employees (tds_add_employee s0 emp)). 0 \<le> te_tds_deducted r"
      by (simp add: tds_add_employee_def Let_def)
    with Cons.IH [of "tds_add_employee s0 emp"] Cons.prems(2) show ?case by simp
  qed
  from generateTDSSummary_Inr [OF assms] obtain run org where
    s: "s = foldl tds_add_employee
              (tds_initial org month year run (select_tds_employees (store w) (run_id run) tenantId))
              (select_tds_employees (store w) (run_id run) tenantId)"
    by blast
  have "\<forall>emp \<in> set (select_tds_employees (store w) (run_id run) tenantId). 0 < tr_tds_cents emp"
    by (auto simp: set_select_tds_employees tds_project_def)
  then show ?thesis unfolding s
    by (intro step) (simp_all add: tds_initial_def)
qed


lemma tds_two_numbers:
  "Math_round (js_div (ToNumber 123456) 100) = 1235"
  "Math_round (js_div (ToNumber 50) 100) = 1"
  "Math_round (js_div (ToNumber 8000000) 100) = 80000"
  "Math_round (js_div (ToNumber 2100001) 100) = 21000"
  "js_add 0 1235 = 1235"
  "js_add 1235 1 = 1236"
  by code_simp+

lemma tds_two_result: "fst (generateTDSSummary 7 3 2024 tds_two) = Inr tds_two_summary"
  by (simp add: tds_two_def tds_two_summary_def tds_two_employees_def store_defs sql_defs js_defs
        tds_two_numbers)

text \<open>
  C9. Every summary that \<open>generateTDSSummary\<close> returns is consistent: its only section is
  192B; \<open>total_tds\<close> is the section's \<open>total_amount\<close>, which is the sum of \<open>tds_deducted\<close>
  over the employees in the order of the list (the exact sum of the integers while that sum is
  at most \<open>2 ^ 53\<close>); \<open>total_employees\<close> is the section's \<open>employee_count\<close>, which is the
  length of the list; the section's list is the list; every record names section 192B.
\<close>

theorem tds_summary_consistent:
  assumes "fst (generateTDSSummary tenantId month year w) = Inr s"
  shows "\<exists>sec. by_section s = [(''192B'', sec)] \<and>
           total_tds s = s_total_amount sec \<and>
           s_total_amount sec =
             foldl (\<lambda>a r. js_add a (of_int (te_tds_deducted r))) 0 (summary_employees s) \<and>
           (sum_list (map te_tds_deducted (summary_employees s)) \<le> 2 ^ 53 \<longrightarrow>
              s_total_amount sec = of_int (sum_list (map te_tds_deducted (summary_employees s)))) \<and>
           total_employees s = s_employee_count sec \<and>
           s_employee_count sec = length (summary_employees s) \<and>
           s_employees sec = summary_employees s \<and>
           (\<forall>r \<in> set (summary_employees s). te_section r = ''192B'')"
proof -
  from generateTDSSummary_Inr [OF assms] obtain run org where
    s: "s = foldl tds_add_employee
              (tds_initial org month year run (select_tds_employees (store w) (run_id run) tenantId))
              (select_tds_employees (store w) (run_id run) tenantId)"
    by blast
  let ?rows = "select_tds_employees (store w) (run_id run) tenantId"
  let ?s0 = "tds_initial org month year run ?rows"
  define sec0 where "sec0 =
     \<lparr>s_section = ''192B'', s_description = ''Tax Deducted at Source on Salary'',
      s_total_amount = 0, s_employee_count = 0, s_employees = []\<rparr>"
  have i: "by_section ?s0 = [(''192B'', sec0)]"
    "total_tds ?s0 = s_total_amount sec0"
    "s_total_amount sec0 =
       foldl (\<lambda>a r. js_add a (of_int (te_tds_deducted r))) 0 (summary_employees ?s0)"
    "s_employee_count sec0 = length (summary_employees ?s0)"
    "s_employees sec0 = summary_employees ?s0"
    "\<forall>r \<in> set (summary_employees ?s0). te_section r = ''192B''"
    by (simp_all add: tds_initial_def sec0_def)
  from tds_fold_consistent [OF i, of ?rows]
  obtain sec where sec: "by_section s = [(''192B'', sec)]"
    "total_tds s = s_total_amount sec"
    "s_total_amount sec =
       foldl (\<lambda>a r. js_add a (of_int (te_tds_deducted r))) 0 (summary_employees s)"
    "s_employee_count sec = length (summary_employees s)"
    "s_employees sec = summary_employees s"
    "\<forall>r \<in> set (summary_employees s). te_section r = ''192B''"
    "length (summary_employees s) = length (summary_employees ?s0) + length ?rows"
    "total_employees s = total_employees ?s0"
    unfolding s by blast
  have n: "total_employees s = s_employee_count sec"
    using sec(4,7,8) by (simp add: tds_initial_def)
  have x: "s_total_amount sec = of_int (sum_list (map te_tds_deducted (summary_employees s)))"
    if le: "sum_list (map te_tds_deducted (summary_employees s)) \<le> 2 ^ 53"
  proof -
    let ?xs = "map te_tds_deducted (summary_employees s)"
    from tds_deducted_nonneg [OF assms] have "\<forall>x \<in> set ?xs. \<bar>x\<bar> = x"
      by auto
    then have eq: "map abs ?xs = ?xs"
      by (intro map_idI) auto
    have "sum_list (map abs ?xs) = sum_list ?xs"
      by (rule arg_cong [OF eq])
    with le have "\<bar>0\<bar> + sum_list (map abs ?xs) \<le> 2 ^ 53" by linarith
    from js_sum_exact [OF this] have "foldl (\<lambda>acc x. js_add acc (of_int x)) 0 ?xs = of_int (sum_list ?xs)"
      by simp
    then show ?thesis
      by (simp add: sec(3) foldl_map)
  qed
  from sec(1,2,3,4,5,6) n x show ?thesis by blast
qed

theorem tds_summary_consistent_witness:
  "fst (generateTDSSummary 7 3 2024 tds_two) = Inr tds_two_summary \<and>
   (\<exists>sec. by_section tds_two_summary = [(''192B'', sec)] \<and>
      total_tds tds_two_summary = 1236 \<and> s_total_amount sec = 1236 \<and>
      sum_list (map te_tds_deducted (summary_employees tds_two_summary)) = 1236 \<and>
      total_employees tds_two_summary = 2 \<and> s_employee_count sec = 2 \<and>
      length (summary_employees tds_two_summary) = 2 \<and>
      s_employees sec = summary_employees tds_two_summary)"
  using tds_summary_consistent [OF tds_two_result] tds_two_result
  by (auto simp: tds_two_summary_def tds_two_employees_def)

lemma select_tds_employees_Nil_iff:
  "select_tds_employees db runId tenantId = [] \<longleftrightarrow>
     \<not> (\<exists>x. processed_employee db runId tenantId x \<and>
              0 < coalesce0 (map_of (metadata (fst x)) ''tds_cents''))"
proof -
  have "select_tds_employees db runId tenantId = [] \<longleftrightarrow>
        set (select_tds_employees db runId tenantId) = {}"
    by simp
  also have "\<dots> \<longleftrightarrow> \<not> (\<exists>x. processed_employee db runId tenantId x \<and>
              0 < coalesce0 (map_of (metadata (fst x)) ''tds_cents''))"
    unfolding set_select_tds_employees by blast
  finally show ?thesis .
qed

lemma tds_no_org_lookup: "fst (getPayrollRunForMonth 7 3 2024 tds_no_org) = Inr march_run"
  by (simp add: tds_no_org_def store_defs sql_defs js_defs)

lemma tds_no_org_rows: "select_tds_employees (store tds_no_org) (run_id march_run) 7 = []"
  by (simp add: tds_no_org_def store_defs sql_defs)

lemma tds_no_org_result:
  "fst (generateTDSSummary 7 3 2024 tds_no_org) = Inl (Error ''Organization not found'')"
  by (simp add: tds_no_org_def store_defs sql_defs js_defs)

text \<open>
  C7 as stated fails: the run of \<open>tds_no_org\<close> is resolved and none of its processed
  employees has a positive \<open>tds_cents\<close>, yet \<open>generateTDSSummary\<close> raises
  \<open>Organization not found\<close>.
\<close>

theorem tds_zero_rows_counterexample:
  "fst (getPayrollRunForMonth 7 3 2024 tds_no_org) = Inr march_run \<and>
   \<not> (\<exists>x. processed_employee (store tds_no_org) (run_id march_run) 7 x \<and>
            0 < coalesce0 (map_of (metadata (fst x)) ''tds_cents'')) \<and>
   fst (generateTDSSummary 7 3 2024 tds_no_org) = Inl (Error ''Organization not found'')"
  using tds_no_org_lookup tds_no_org_result
    iffD1 [OF select_tds_employees_Nil_iff tds_no_org_rows]
  by (intro conjI)

text \<open>
  C7 (amended). For every resolved run of a tenant whose organization row exists, when no
  processed employee of the run has a positive \<open>tds_cents\<close>, \<open>generateTDSSummary\<close>
  returns a summary with \<open>total_tds = 0\<close>, \<open>total_employees = 0\<close>, no employees, and the
  section 192B with \<open>total_amount = 0\<close>, \<open>employee_count = 0\<close> and no employees. In the
  same situation \<open>generatePFECR\<close> (with a PF code) raises \<open>No employees found in payroll
  run\<close> when the run has no processed employee, and \<open>generateESIReturn\<close> raises
  \<open>No employees eligible for ESI in this payroll run\<close> when it has none within the ceiling.
\<close>

theorem tds_zero_rows:
  assumes "fst (getPayrollRunForMonth tenantId month year w) = Inr payrollRun"
    and "select_organization (store w) tenantId = org # orgs"
    and "\<not> (\<exists>x. processed_employee (store w) (run_id payrollRun) tenantId x \<and>
                 0 < coalesce0 (map_of (metadata (fst x)) ''tds_cents''))"
  shows "\<exists>s sec. fst (generateTDSSummary tenantId month year w) = Inr s \<and>
           total_tds s = 0 \<and> total_employees s = 0 \<and> summary_employees s = [] \<and>
           by_section s = [(''192B'', sec)] \<and>
           s_total_amount sec = 0 \<and> s_employee_count sec = 0 \<and> s_employees sec = [] \<and>
           (\<not> falsy (pf_code org) \<and>
            \<not> (\<exists>x. processed_employee (store w) (run_id payrollRun) tenantId x) \<longrightarrow>
              fst (generatePFECR tenantId month year w) =
                Inl (Error ''No employees found in payroll run'')) \<and>
           (\<not> (\<exists>x. processed_employee (store w) (run_id payrollRun) tenantId x \<and>
                    gross_pay_cents (fst x) \<le> 2100000) \<longrightarrow>
              fst (generateESIReturn tenantId month year w) =
                Inl (Error ''No employees eligible for ESI in this payroll run''))"
proof -
  from getPayrollRunForMonth_Inr [OF assms(1)] obtain rest where
    run: "select_completed_run (store w) tenantId month year = payrollRun # rest" ..
  have rows: "select_tds_employees (store w) (run_id payrollRun) tenantId = []"
    using assms(3) by (rule iffD2 [OF select_tds_employees_Nil_iff])
  have s: "fst (generateTDSSummary tenantId month year w) =
             Inr (tds_initial org month year payrollRun [])"
    using generateTDSSummary_ok [OF run assms(2)] by (simp add: rows)
  have pf: "fst (generatePFECR tenantId month year w) =
              Inl (Error ''No employees found in payroll run'')"
    if "\<not> falsy (pf_code org)"
       "\<not> (\<exists>x. processed_employee (store w) (run_id payrollRun) tenantId x)"
  proof -
    from that(2) have "set (select_pf_employees (store w) (run_id payrollRun) tenantId) = {}"
      by (auto simp: set_select_pf_employees)
    then have "select_pf_employees (store w) (run_id payrollRun) tenantId = []" by simp
    with that(1) show ?thesis
      by (simp add: generatePFECR_def getPayrollRunForMonth_found [OF run] Let_def assms(2))
  qed
  have esi: "fst (generateESIReturn tenantId month year w) =
               Inl (Error ''No employees eligible for ESI in this payroll run'')"
    if "\<not> (\<exists>x. processed_employee (store w) (run_id payrollRun) tenantId x \<and>
                gross_pay_cents (fst x) \<le> 2100000)"
  proof -
    from that have "set (select_esi_employees (store w) (run_id payrollRun) tenantId
                           (js_date_day0_getDate year month)) = {}"
      by (auto simp: set_select_esi_employees)
    then have "select_esi_employees (store w) (run_id payrollRun) tenantId
                 (js_date_day0_getDate year month) = []" by simp
    then show ?thesis
      by (simp add: generateESIReturn_def getPayrollRunForMonth_found [OF run] Let_def assms(2))
  qed
  from s pf esi show ?thesis
    by (simp add: tds_initial_def)
qed

lemma tds_none_lookup: "fst (getPayrollRunForMonth 7 3 2024 tds_none) = Inr march_run"
  by (simp add: tds_none_def store_defs sql_defs js_defs)

lemma tds_none_org: "select_organization (store tds_none) 7 = org_with None # []"
  by (simp add: tds_none_def store_defs sql_defs)

lemma tds_none_rows: "select_tds_employees (store tds_none) (run_id march_run) 7 = []"
  by (simp add: tds_none_def store_defs sql_defs)

lemma no_outcomes_lookup: "fst (getPayrollRunForMonth 7 3 2024 no_outcomes) = Inr march_run"
  by (simp add: no_outcomes_def store_defs sql_defs js_defs)

lemma no_outcomes_org:
  "select_organization (store no_outcomes) 7 = org_with (Some ''MHBAN0012345000'') # []"
  by (simp add: no_outcomes_def store_defs sql_defs)

lemma no_outcomes_none: "\<not> (\<exists>x. processed_employee (store no_outcomes) (run_id march_run) 7 x)"
  by (simp add: no_outcomes_def store_defs processed_employee_def)

theorem tds_zero_rows_witness:
  "(\<exists>s sec. fst (generateTDSSummary 7 3 2024 tds_none) = Inr s \<and>
      total_tds s = 0 \<and> total_employees s = 0 \<and> summary_employees s = [] \<and>
      by_section s = [(''192B'', sec)] \<and>
      s_total_amount sec = 0 \<and> s_employee_count sec = 0 \<and> s_employees sec = []) \<and>
   (\<exists>s. fst (generateTDSSummary 7 3 2024 no_outcomes) = Inr s \<and> total_tds s = 0) \<and>
   fst (generatePFECR 7 3 2024 no_outcomes) = Inl (Error ''No employees found in payroll run'') \<and>
   fst (generateESIReturn 7 3 2024 no_outcomes) =
     Inl (Error ''No employees eligible for ESI in this payroll run'')"
proof -
  have a: "\<not> (\<exists>x. processed_employee (store tds_none) (run_id march_run) 7 x \<and>
            0 < coalesce0 (map_of (metadata (fst x)) ''tds_cents''))"
    using tds_none_rows by (rule iffD1 [OF select_tds_employees_Nil_iff])
  from no_outcomes_none
  have b: "\<not> (\<exists>x. processed_employee (store no_outcomes) (run_id march_run) 7 x \<and>
            0 < coalesce0 (map_of (metadata (fst x)) ''tds_cents''))"
    by blast
  have c: "\<not> falsy (pf_code (org_with (Some ''MHBAN0012345000'')))"
    by (simp add: org_with_def falsy_def)
  from tds_zero_rows [OF tds_none_lookup tds_none_org a]
       tds_zero_rows [OF no_outcomes_lookup no_outcomes_org b] no_outcomes_none c
  show ?thesis by blast
qed

subsection \<open>The lookup of the payroll run\<close>

lemma sorted_wrt_insert_by:
  assumes le: "\<And>a b. le a b \<Longrightarrow> R a b" and nle: "\<And>a b. \<not> le a b \<Longrightarrow> R b a"
    and trans: "\<And>a b c. R a b \<Longrightarrow> R b c \<Longrightarrow> R a c"
  shows "sorted_wrt R xs \<Longrightarrow> sorted_wrt R (insert_by le x xs)"
proof (induction xs)
  case Nil
  show ?case by simp
next
  case (Cons y ys)
  show ?case
  proof (cases "le x y")
    case True
    then have "R x y" by (rule le)
    with Cons.prems trans show ?thesis using True by auto
  next
    case False
    then have "R y x" by (rule nle)
    with False Cons show ?thesis by auto
  qed
qed

lemma sorted_wrt_order_by:
  assumes "\<And>a b. le a b \<Longrightarrow> R a b" and "\<And>a b. \<not> le a b \<Longrightarrow> R b a"
    and "\<And>a b c. R a b \<Longrightarrow> R b c \<Longrightarrow> R a c"
  shows "sorted_wrt R (order_by le xs)"
proof (induction xs)
  case Nil
  show ?case by (simp add: order_by_simps)
next
  case (Cons x xs)
  from sorted_wrt_insert_by [of le R, OF assms Cons.IH]
  show ?case by (simp add: order_by_simps)
qed

lemma run_groups_sorted: "sorted_wrt newer_or_same (run_groups db tenantId)"
  unfolding run_groups_def Let_def
  by (rule sorted_wrt_order_by) (auto simp: newer_or_same_def)

lemma set_run_groups:
  "set (run_groups db tenantId) =
     group_of db tenantId ` {r \<in> set (payroll_runs db). run_tenant_id r = tenantId}"
  by (auto simp: run_groups_def group_of_def Let_def image_iff conj_commute conj_left_commute
           cong: conj_cong)

lemma distinct_run_groups: "distinct (run_groups db tenantId)"
proof -
  have "inj (\<lambda>(m, y, s). \<lparr>g_month = m, g_year = y, g_status = s, g_count = f (m, y, s)\<rparr>)"
    for f :: "int \<times> int \<times> string \<Rightarrow> nat"
    by (auto simp: inj_on_def)
  then show ?thesis
    unfolding run_groups_def Let_def
    by (simp add: distinct_map split_def) (auto simp: inj_on_def)
qed


text \<open>
  Every order the server may return is the order of the model for some \<open>served_before\<close>:
  a list of the tenant's groups, each once, in descending order of year and month, is
  \<open>run_groups\<close> of the store with a suitable server.
\<close>

lemma position_nth:
  assumes "distinct gs" and "i < length gs"
  shows "length (takeWhile (\<lambda>x. x \<noteq> gs ! i) gs) = i"
proof (rule antisym)
  show "length (takeWhile (\<lambda>x. x \<noteq> gs ! i) gs) \<le> i"
  proof (rule ccontr)
    assume "\<not> length (takeWhile (\<lambda>x. x \<noteq> gs ! i) gs) \<le> i"
    then have l: "i < length (takeWhile (\<lambda>x. x \<noteq> gs ! i) gs)" by simp
    then have "takeWhile (\<lambda>x. x \<noteq> gs ! i) gs ! i \<in> set (takeWhile (\<lambda>x. x \<noteq> gs ! i) gs)"
      by (rule nth_mem)
    then have "gs ! i \<in> set (takeWhile (\<lambda>x. x \<noteq> gs ! i) gs)"
      by (simp add: takeWhile_nth [OF l])
    from set_takeWhileD [OF this] show False by simp
  qed
next
  have "gs ! k \<noteq> gs ! i" if "k < i" for k
    using that assms by (simp add: nth_eq_iff_index_eq)
  with assms(2) show "i \<le> length (takeWhile (\<lambda>x. x \<noteq> gs ! i) gs)"
    by (intro length_takeWhile_less_P_nth) auto
qed

lemma run_groups_any_order:
  assumes groups: "set gs = group_of db tenantId `
                      {r \<in> set (payroll_runs db). run_tenant_id r = tenantId}"
    and dist: "distinct gs" and sorted: "sorted_wrt newer_or_same gs"
  shows "\<exists>before. run_groups (db\<lparr>served_before := before\<rparr>) tenantId = gs"
proof -
  define pos where "pos a = length (takeWhile (\<lambda>x. x \<noteq> a) gs)" for a
  define db' where "db' = db\<lparr>served_before := (\<lambda>a b. pos a \<le> pos b)\<rparr>"
  define le where "le a b \<longleftrightarrow> g_year b < g_year a \<or>
      (g_year b = g_year a \<and>
        (g_month b < g_month a \<or> (g_month b = g_month a \<and> pos a \<le> pos b)))" for a b
  let ?res = "run_groups db' tenantId"
  have pos_nth: "pos (gs ! i) = i" if "i < length gs" for i
    unfolding pos_def using dist that by (rule position_nth)
  have mapped: "map pos gs = [0..<length gs]"
    by (rule nth_equalityI) (simp_all add: pos_nth)
  have set_res: "set ?res = set gs"
    unfolding set_run_groups groups by (simp add: db'_def group_of_def)
  have dist_res: "distinct ?res" by (rule distinct_run_groups)
  have "?res = order_by le
          (map (\<lambda>(m, y, s).
                  \<lparr>g_month = m, g_year = y, g_status = s,
                   g_count = length (filter (\<lambda>r. (d_month (pay_date r), d_year (pay_date r), run_status r) = (m, y, s))
                                       (filter (\<lambda>r. run_tenant_id r = tenantId) (payroll_runs db')))\<rparr>)
             (remdups (map (\<lambda>r. (d_month (pay_date r), d_year (pay_date r), run_status r))
                         (filter (\<lambda>r. run_tenant_id r = tenantId) (payroll_runs db')))))"
    unfolding run_groups_def Let_def le_def [abs_def] by (simp add: db'_def)
  moreover have "sorted_wrt le (order_by le xs)" for xs
    by (rule sorted_wrt_order_by) (auto simp: le_def)
  ultimately have sorted_res: "sorted_wrt le ?res" by simp
  have le_pos: "pos a \<le> pos b" if "a \<in> set gs" "b \<in> set gs" "le a b" for a b
  proof (rule ccontr)
    assume "\<not> pos a \<le> pos b"
    then have less: "pos b < pos a" by simp
    from that(1,2) obtain i j where ij: "i < length gs" "gs ! i = a" "j < length gs" "gs ! j = b"
      by (auto simp: in_set_conv_nth)
    with pos_nth have "pos a = i" "pos b = j" by auto
    with less ij sorted have "newer_or_same b a"
      by (auto simp: sorted_wrt_iff_nth_less)
    with that(3) less show False
      by (auto simp: le_def newer_or_same_def)
  qed
  have "sorted_wrt (\<lambda>a b. pos a \<le> pos b) ?res"
    using sorted_res by (rule sorted_wrt_mono_rel [rotated]) (simp add: set_res le_pos)
  then have s1: "sorted (map pos ?res)" by (simp add: sorted_map)
  have inj: "inj_on pos (set gs)"
  proof (rule inj_onI)
    fix a b assume "a \<in> set gs" "b \<in> set gs" "pos a = pos b"
    then obtain i j where "i < length gs" "gs ! i = a" "j < length gs" "gs ! j = b"
      by (auto simp: in_set_conv_nth)
    with pos_nth \<open>pos a = pos b\<close> show "a = b" by auto
  qed
  have d1: "distinct (map pos ?res)"
    using dist_res inj by (simp add: distinct_map set_res)
  have s2: "sorted (map pos gs)" and d2: "distinct (map pos gs)"
    by (simp_all only: mapped sorted_upt distinct_upt)
  have "set (map pos ?res) = set (map pos gs)"
    by (simp only: set_map set_res)
  with s1 d1 s2 d2 have "map pos ?res = map pos gs"
    by (rule sorted_distinct_set_unique)
  then have "?res = gs"
    using inj by (simp add: inj_on_map_eq_map set_res)
  then show ?thesis unfolding db'_def by blast
qed


lemma run_groups_Nil_iff:
  "run_groups db tenantId = [] \<longleftrightarrow> \<not> (\<exists>r \<in> set (payroll_runs db). run_tenant_id r = tenantId)"
proof -
  have "run_groups db tenantId = [] \<longleftrightarrow> set (run_groups db tenantId) = {}" by simp
  also have "\<dots> \<longleftrightarrow> \<not> (\<exists>r \<in> set (payroll_runs db). run_tenant_id r = tenantId)"
    unfolding set_run_groups by blast
  finally show ?thesis .
qed

lemma select_run_groups_Nil_iff:
  "select_run_groups db tenantId = [] \<longleftrightarrow>
     \<not> (\<exists>r \<in> set (payroll_runs db). run_tenant_id r = tenantId)"
  by (simp add: select_run_groups_def take_eq_Nil run_groups_Nil_iff)

lemma select_run_groups_sound:
  assumes "g \<in> set (select_run_groups db tenantId)"
  shows "\<exists>r \<in> set (payroll_runs db). run_tenant_id r = tenantId \<and> g = group_of db tenantId r"
proof -
  from assms have "g \<in> set (run_groups db tenantId)"
    unfolding select_run_groups_def by (rule in_set_takeD)
  then show ?thesis
    unfolding set_run_groups by auto
qed

lemma run_groups_completed_iff:
  "(\<exists>g \<in> set (run_groups db tenantId). g_status g = ''completed'') \<longleftrightarrow>
   (\<exists>r \<in> set (payroll_runs db). run_tenant_id r = tenantId \<and> run_status r = ''completed'')"
  unfolding set_run_groups by (auto simp: group_of_def)

lemma month_year_not_Nil: "month_year g \<noteq> []"
  by (simp add: month_year_def js_String_not_Nil)

lemma lookup_message_branches:
  "lookup_message month year rows =
     ''No completed payroll run found for '' @ js_String month @ ''/'' @ js_String year @ ''.'' @
     (if filter (\<lambda>g. g_status g = ''completed'') rows \<noteq> [] then
        '' Available completed payroll runs: '' @
        join '', '' (map month_year (filter (\<lambda>g. g_status g = ''completed'') rows)) @ ''.''
      else if rows \<noteq> [] then
        '' Available payroll runs: '' @
        join '', '' (map (\<lambda>g. month_year g @ '' ('' @ g_status g @ '')'') rows) @
        ''. Please complete a payroll run first.''
      else
        '' No payroll runs found for this organization. Please create and process a payroll run first.'')"
proof -
  have "join '', '' (map month_year xs) = [] \<longleftrightarrow> xs = []" for xs
    using join_Nil_iff [of "map month_year xs" "'', ''"] by (simp add: month_year_not_Nil)
  then show ?thesis
    by (auto simp: lookup_message_def Let_def)
qed

lemma many_drafts_groups:
  "select_run_groups many_drafts 7 =
     map (\<lambda>m. \<lparr>g_month = m, g_year = 2024, g_status = ''draft'', g_count = 1\<rparr>)
       [12, 11, 10, 9, 8, 7, 6, 5, 4, 3]"
  by (simp add: many_drafts_def store_defs sql_defs)

lemma many_drafts_message:
  "fst (getPayrollRunForMonth 7 2 2024 (initial many_drafts)) =
     Inl (Error (''No completed payroll run found for 2/2024.'' @
                 '' Available payroll runs: 12/2024 (draft), 11/2024 (draft), 10/2024 (draft),'' @
                 '' 9/2024 (draft), 8/2024 (draft), 7/2024 (draft), 6/2024 (draft),'' @
                 '' 5/2024 (draft), 4/2024 (draft), 3/2024 (draft).'' @
                 '' Please complete a payroll run first.''))"
proof -
  have "select_completed_run many_drafts 7 2 2024 = []"
    by (simp add: many_drafts_def store_defs sql_defs)
  then show ?thesis
    by (simp add: getPayrollRunForMonth_def Let_def initial_def many_drafts_groups
          lookup_message_def month_year_def js_String_def digits.simps digit_char_def)
qed


lemma many_drafts_completed:
  "completed_run_for many_drafts 7 1 2024 (run_paid 2 (on_day 2024 1 31) ''completed'')"
  by (simp add: completed_run_for_def many_drafts_def store_defs)

text \<open>
  C4 as stated fails in its branch (a): the tenant of \<open>many_drafts\<close> has a completed run
  for January 2024, none for February 2024, and the message for February lists the ten draft
  groups and asks to complete a run.
\<close>

theorem lookup_diagnostic_counterexample:
  "completed_run_for many_drafts 7 1 2024 (run_paid 2 (on_day 2024 1 31) ''completed'') \<and>
   \<not> (\<exists>r. completed_run_for many_drafts 7 2 2024 r) \<and>
   fst (getPayrollRunForMonth 7 2 2024 (initial many_drafts)) =
     Inl (Error (''No completed payroll run found for 2/2024.'' @
                 '' Available payroll runs: 12/2024 (draft), 11/2024 (draft), 10/2024 (draft),'' @
                 '' 9/2024 (draft), 8/2024 (draft), 7/2024 (draft), 6/2024 (draft),'' @
                 '' 5/2024 (draft), 4/2024 (draft), 3/2024 (draft).'' @
                 '' Please complete a payroll run first.''))"
proof -
  have "select_completed_run many_drafts 7 2 2024 = []"
    by (simp add: many_drafts_def store_defs sql_defs)
  then have "\<not> (\<exists>r. completed_run_for many_drafts 7 2 2024 r)"
    by (rule iffD1 [OF select_completed_run_Nil_iff])
  with many_drafts_completed many_drafts_message show ?thesis by (intro conjI)
qed

text \<open>
  C4 (amended). \<open>getPayrollRunForMonth\<close> returns a completed run of the tenant for the
  month and year when there is one; that there is none is its only failure. It then fails
  with an error whose message is \<open>No completed payroll run found for month/year.\<close>
  followed by exactly one of three texts, chosen over the rows of the diagnostic statement:
  (a) when one of the rows is completed, the completed rows as month/year; (b) otherwise,
  when there are rows, every row as month/year (status) and the request to complete a run;
  (c) otherwise that no runs exist and the request to create one. The rows are the first ten
  of the tenant's (month, year, status) groups, each group once with the number of its runs,
  in descending order of year and month; among the groups of one month and year the order is
  the server's, and every such order is one the statement is about. There are rows exactly
  when the tenant has a run, and for a tenant with at most ten groups a row is completed
  exactly when the tenant has a completed run.
\<close>

theorem lookup_diagnostic:
  "((\<exists>r. completed_run_for (store w) tenantId month year r) \<longrightarrow>
      (\<exists>row. fst (getPayrollRunForMonth tenantId month year w) = Inr row \<and>
             completed_run_for (store w) tenantId month year row)) \<and>
   (\<not> (\<exists>r. completed_run_for (store w) tenantId month year r) \<longrightarrow>
      fst (getPayrollRunForMonth tenantId month year w) =
        Inl (Error
          (''No completed payroll run found for '' @ js_String month @ ''/'' @ js_String year @ ''.'' @
           (if filter (\<lambda>g. g_status g = ''completed'') (select_run_groups (store w) tenantId) \<noteq> []
            then '' Available completed payroll runs: '' @
                 join '', '' (map month_year (filter (\<lambda>g. g_status g = ''completed'')
                                                (select_run_groups (store w) tenantId))) @ ''.''
            else if select_run_groups (store w) tenantId \<noteq> []
            then '' Available payroll runs: '' @
                 join '', '' (map (\<lambda>g. month_year g @ '' ('' @ g_status g @ '')'')
                                (select_run_groups (store w) tenantId)) @
                 ''. Please complete a payroll run first.''
            else '' No payroll runs found for this organization. Please create and process a payroll run first.'')))) \<and>
   select_run_groups (store w) tenantId = take 10 (run_groups (store w) tenantId) \<and>
   set (run_groups (store w) tenantId) =
     group_of (store w) tenantId `
       {r \<in> set (payroll_runs (store w)). run_tenant_id r = tenantId} \<and>
   distinct (run_groups (store w) tenantId) \<and>
   sorted_wrt newer_or_same (run_groups (store w) tenantId) \<and>
   (\<forall>gs. set gs = group_of (store w) tenantId `
                     {r \<in> set (payroll_runs (store w)). run_tenant_id r = tenantId} \<and>
         distinct gs \<and> sorted_wrt newer_or_same gs \<longrightarrow>
         (\<exists>before. run_groups ((store w)\<lparr>served_before := before\<rparr>) tenantId = gs)) \<and>
   (select_run_groups (store w) tenantId \<noteq> [] \<longleftrightarrow>
      (\<exists>r \<in> set (payroll_runs (store w)). run_tenant_id r = tenantId)) \<and>
   (length (run_groups (store w) tenantId) \<le> 10 \<longrightarrow>
      (filter (\<lambda>g. g_status g = ''completed'') (select_run_groups (store w) tenantId) \<noteq> [] \<longleftrightarrow>
       (\<exists>r \<in> set (payroll_runs (store w)). run_tenant_id r = tenantId \<and>
                                              run_status r = ''completed'')))"
proof -
  have found: "\<exists>row. fst (getPayrollRunForMonth tenantId month year w) = Inr row \<and>
                 completed_run_for (store w) tenantId month year row"
    if "\<exists>r. completed_run_for (store w) tenantId month year r"
  proof -
    from that have "select_completed_run (store w) tenantId month year \<noteq> []"
      by (simp add: select_completed_run_Nil_iff)
    then obtain row rest where
      row: "select_completed_run (store w) tenantId month year = row # rest"
      by (cases "select_completed_run (store w) tenantId month year") auto
    from getPayrollRunForMonth_found [OF row] select_completed_run_Cons [OF row]
    show ?thesis by simp
  qed
  have none: "fst (getPayrollRunForMonth tenantId month year w) =
      Inl (Error (lookup_message month year (select_run_groups (store w) tenantId)))"
    if "\<not> (\<exists>r. completed_run_for (store w) tenantId month year r)"
  proof -
    from that have "select_completed_run (store w) tenantId month year = []"
      by (rule iffD2 [OF select_completed_run_Nil_iff])
    from getPayrollRunForMonth_none [OF this] show ?thesis by simp
  qed
  have few: "filter (\<lambda>g. g_status g = ''completed'') (select_run_groups (store w) tenantId) \<noteq> [] \<longleftrightarrow>
       (\<exists>r \<in> set (payroll_runs (store w)). run_tenant_id r = tenantId \<and>
                                              run_status r = ''completed'')"
    if "length (run_groups (store w) tenantId) \<le> 10"
  proof -
    from that have "select_run_groups (store w) tenantId = run_groups (store w) tenantId"
      by (simp add: select_run_groups_def)
    then show ?thesis
      using run_groups_completed_iff [of "store w" tenantId]
      by (simp add: filter_empty_conv)
  qed
  have any: "\<exists>before. run_groups ((store w)\<lparr>served_before := before\<rparr>) tenantId = gs"
    if "set gs = group_of (store w) tenantId `
                     {r \<in> set (payroll_runs (store w)). run_tenant_id r = tenantId} \<and>
         distinct gs \<and> sorted_wrt newer_or_same gs" for gs
    using that by (intro run_groups_any_order) simp_all
  show ?thesis
    apply (intro conjI impI allI)
    subgoal by (rule found)
    subgoal premises p using none [OF p] by (simp only: lookup_message_branches)
    subgoal by (simp add: select_run_groups_def)
    subgoal by (rule set_run_groups)
    subgoal by (rule distinct_run_groups)
    subgoal by (rule run_groups_sorted)
    subgoal by (rule any)
    subgoal by (simp add: select_run_groups_Nil_iff)
    subgoal by (rule few)
    done
qed

lemma tds_none_groups:
  "run_groups (store tds_none) 7 =
     [\<lparr>g_month = 3, g_year = 2024, g_status = ''completed'', g_count = 1\<rparr>]"
  by (simp add: tds_none_def store_defs sql_defs)

lemma tds_none_april: "\<not> (\<exists>r. completed_run_for (store tds_none) 7 4 2024 r)"
  by (simp add: completed_run_for_def tds_none_def store_defs)

lemma tied_groups_rows:
  "run_groups tied_groups 7 =
     [\<lparr>g_month = 3, g_year = 2024, g_status = ''draft'', g_count = 2\<rparr>,
      \<lparr>g_month = 3, g_year = 2024, g_status = ''processing'', g_count = 1\<rparr>,
      \<lparr>g_month = 1, g_year = 2024, g_status = ''draft'', g_count = 1\<rparr>]"
  by (simp add: tied_groups_def store_defs sql_defs)

lemma tied_groups_reversed_rows:
  "run_groups tied_groups_reversed 7 =
     [\<lparr>g_month = 3, g_year = 2024, g_status = ''processing'', g_count = 1\<rparr>,
      \<lparr>g_month = 3, g_year = 2024, g_status = ''draft'', g_count = 2\<rparr>,
      \<lparr>g_month = 1, g_year = 2024, g_status = ''draft'', g_count = 1\<rparr>]"
  by (simp add: tied_groups_reversed_def tied_groups_def store_defs sql_defs)

theorem lookup_diagnostic_witness:
  "fst (getPayrollRunForMonth 7 3 2024 tds_none) = Inr march_run \<and>
   fst (getPayrollRunForMonth 7 4 2024 tds_none) =
     Inl (Error (''No completed payroll run found for 4/2024.'' @
                 '' Available completed payroll runs: 3/2024.'')) \<and>
   (\<exists>r \<in> set (payroll_runs (store tds_none)). run_tenant_id r = 7 \<and> run_status r = ''completed'') \<and>
   fst (getPayrollRunForMonth 7 2 2024 (initial tied_groups)) =
     Inl (Error (''No completed payroll run found for 2/2024.'' @
                 '' Available payroll runs: 3/2024 (draft), 3/2024 (processing), 1/2024 (draft).'' @
                 '' Please complete a payroll run first.'')) \<and>
   fst (getPayrollRunForMonth 7 2 2024 (initial tied_groups_reversed)) =
     Inl (Error (''No completed payroll run found for 2/2024.'' @
                 '' Available payroll runs: 3/2024 (processing), 3/2024 (draft), 1/2024 (draft).'' @
                 '' Please complete a payroll run first.'')) \<and>
   fst (getPayrollRunForMonth 7 3 2024 no_runs) =
     Inl (Error (''No completed payroll run found for 3/2024.'' @
                 '' No payroll runs found for this organization.'' @
                 '' Please create and process a payroll run first.''))"
proof -
  have g: "select_run_groups (store tds_none) 7 =
     [\<lparr>g_month = 3, g_year = 2024, g_status = ''completed'', g_count = 1\<rparr>]"
    by (simp add: select_run_groups_def tds_none_groups)
  have l: "length (run_groups (store tds_none) 7) \<le> 10"
    by (simp add: tds_none_groups)
  have s: "js_String 4 = ''4''" "js_String 3 = ''3''" "js_String 2 = ''2''" "js_String 1 = ''1''"
    "js_String 2024 = ''2024''"
    by (simp_all add: js_String_def digits.simps digit_char_def)
  have n: "\<not> (\<exists>r. completed_run_for (store no_runs) 7 3 2024 r)"
    by (simp add: completed_run_for_def no_runs_def store_defs)
  have e: "select_run_groups (store no_runs) 7 = []"
    by (simp add: no_runs_def store_defs sql_defs)
  have t: "\<not> (\<exists>r. completed_run_for (store (initial tied_groups)) 7 2 2024 r)"
    by (auto simp: completed_run_for_def tied_groups_def store_defs)
  have t': "\<not> (\<exists>r. completed_run_for (store (initial tied_groups_reversed)) 7 2 2024 r)"
    by (auto simp: completed_run_for_def tied_groups_reversed_def tied_groups_def store_defs)
  from lookup_diagnostic [of tds_none 7 4 2024] tds_none_april l
  have a: "fst (getPayrollRunForMonth 7 4 2024 tds_none) =
     Inl (Error (''No completed payroll run found for 4/2024.'' @
                 '' Available completed payroll runs: 3/2024.''))"
    and b: "\<exists>r \<in> set (payroll_runs (store tds_none)). run_tenant_id r = 7 \<and> run_status r = ''completed''"
    by (simp_all add: g s month_year_def)
  from lookup_diagnostic [of no_runs 7 3 2024] n
  have c: "fst (getPayrollRunForMonth 7 3 2024 no_runs) =
     Inl (Error (''No completed payroll run found for 3/2024.'' @
                 '' No payroll runs found for this organization.'' @
                 '' Please create and process a payroll run first.''))"
    by (simp add: e s)
  from lookup_diagnostic [of "initial tied_groups" 7 2 2024] t
  have d: "fst (getPayrollRunForMonth 7 2 2024 (initial tied_groups)) =
     Inl (Error (''No completed payroll run found for 2/2024.'' @
                 '' Available payroll runs: 3/2024 (draft), 3/2024 (processing), 1/2024 (draft).'' @
                 '' Please complete a payroll run first.''))"
    by (simp add: initial_def select_run_groups_def tied_groups_rows s month_year_def)
  from lookup_diagnostic [of "initial tied_groups_reversed" 7 2 2024] t'
  have d': "fst (getPayrollRunForMonth 7 2 2024 (initial tied_groups_reversed)) =
     Inl (Error (''No completed payroll run found for 2/2024.'' @
                 '' Available payroll runs: 3/2024 (processing), 3/2024 (draft), 1/2024 (draft).'' @
                 '' Please complete a payroll run first.''))"
    by (simp add: initial_def select_run_groups_def tied_groups_reversed_rows s month_year_def)
  from tds_none_lookup a b d d' c show ?thesis by (intro conjI)
qed

end
